theory Spec2Isabelle
  imports Complex_Main "HOL-Library.List_Lexorder" "HOL-Library.Char_ord"
begin

section \<open>Tables\<close>

text \<open>
  The two scripts work on pandas data frames. A frame is modelled by its number of rows
  (the length of its index) and its columns in order, each a name with one cell per row.
  A cell is a missing value (\<open>NaN\<close>, \<open>None\<close> and \<open>NaT\<close> alike: everything for which
  \<open>pd.isna\<close> holds), a string, a number, a timestamp (year, month, day, hour, minute,
  second) or a boolean. Floating point numbers are modelled by real numbers; infinite
  floats are not represented.
\<close>

text \<open>
  The exceptions of the two scripts. Which of \<open>AttributeError\<close> and \<open>ValueError\<close> a
  time column without any string raises depends on the type pandas has given the column,
  which the cells do not show; the model has one value for the two.
\<close>

datatype error =
    FileNotFoundError
  | KeyError
  | ValueError
  | AttributeError
  | TypeError
  | OverflowError
  | AttributeError_or_ValueError

datatype cell =
    Null
  | Str string
  | Num real
  | Stamp nat nat nat nat nat nat
  | Flag bool

record frame =
  nrows :: nat
  columns :: "(string \<times> cell list) list"

definition names :: "frame \<Rightarrow> string list" where
  "names t = map fst (columns t)"

text \<open>\<open>col in df.columns\<close>\<close>

definition has_col :: "frame \<Rightarrow> string \<Rightarrow> bool" where
  "has_col t c = (c \<in> set (names t))"

text \<open>\<open>df[c]\<close>, \<open>None\<close> where pandas raises \<open>KeyError\<close>.\<close>

definition getcol :: "frame \<Rightarrow> string \<Rightarrow> cell list option" where
  "getcol t c = map_of (columns t) c"

text \<open>
  \<open>df[c] = v\<close>: an existing column is replaced where it stands, a new one is appended.
\<close>

definition setcol :: "string \<Rightarrow> cell list \<Rightarrow> frame \<Rightarrow> frame" where
  "setcol c v t =
     t\<lparr>columns := (if has_col t c then map (\<lambda>(n, xs). if n = c then (n, v) else (n, xs)) (columns t)
                   else columns t @ [(c, v)])\<rparr>"

text \<open>\<open>df.drop(columns=cs)\<close>, for names that are present.\<close>

definition dropcols :: "string list \<Rightarrow> frame \<Rightarrow> frame" where
  "dropcols cs t = t\<lparr>columns := filter (\<lambda>(n, xs). n \<notin> set cs) (columns t)\<rparr>"

text \<open>Every column has one cell per row.\<close>

definition wf_frame :: "frame \<Rightarrow> bool" where
  "wf_frame t = list_all (\<lambda>(n, xs). length xs = nrows t) (columns t)"

definition isna :: "cell \<Rightarrow> bool" where
  "isna c = (c = Null)"

text \<open>Exceptions are the left summand; \<open>and_then\<close> runs the next statement on success.\<close>

definition and_then :: "error + 'a \<Rightarrow> ('a \<Rightarrow> error + 'b) \<Rightarrow> error + 'b" where
  "and_then r f = (case r of Inl e \<Rightarrow> Inl e | Inr x \<Rightarrow> f x)"

text \<open>Running a list of fallible computations in order: the first exception wins.\<close>

fun collect :: "(error + 'a) list \<Rightarrow> error + 'a list" where
  "collect [] = Inr []"
| "collect (r # rs) =
     (case r of Inl e \<Rightarrow> Inl e
      | Inr x \<Rightarrow> (case collect rs of Inl e \<Rightarrow> Inl e | Inr xs \<Rightarrow> Inr (x # xs)))"

section \<open>Statements and objects\<close>

text \<open>
  A function that updates a table is written as the list of its statements. A statement
  computes a table from the one its variable \<open>df\<close> is bound to and may raise. An item
  assignment \<open>df[c] = ...\<close> writes the result into the same object; a statement
  \<open>df = f(df)\<close> with a function that returns a new table binds the variable to a new
  object; a statement under \<open>if g(df):\<close> runs when the condition holds.
\<close>

datatype stmt =
    Assign "frame \<Rightarrow> error + frame"
  | Rebind "frame \<Rightarrow> error + frame"
  | When "frame \<Rightarrow> bool" stmt

text \<open>The table the variable is bound to after a statement, whichever object holds it.\<close>

primrec effect :: "stmt \<Rightarrow> frame \<Rightarrow> error + frame" where
  "effect (Assign f) t = f t"
| "effect (Rebind f) t = f t"
| "effect (When g st) t = (if g t then effect st t else Inr t)"

fun run_steps :: "(frame \<Rightarrow> error + frame) list \<Rightarrow> frame \<Rightarrow> error + frame" where
  "run_steps [] t = Inr t"
| "run_steps (f # fs) t = and_then (f t) (run_steps fs)"

text \<open>
  The same with the objects made explicit: a store is the list of the tables allocated so
  far, an address is an index into it. A statement is run with the address its variable
  holds and gives the store afterwards and the new address, or the exception.
\<close>

type_synonym store = "frame list"

primrec exec :: "stmt \<Rightarrow> store \<Rightarrow> nat \<Rightarrow> store \<times> (error + nat)" where
  "exec (Assign f) s a =
     (case f (s ! a) of Inl e \<Rightarrow> (s, Inl e) | Inr t \<Rightarrow> (s[a := t], Inr a))"
| "exec (Rebind f) s a =
     (case f (s ! a) of Inl e \<Rightarrow> (s, Inl e) | Inr t \<Rightarrow> (s @ [t], Inr (length s)))"
| "exec (When g st) s a = (if g (s ! a) then exec st s a else (s, Inr a))"

fun exec_all :: "stmt list \<Rightarrow> store \<Rightarrow> nat \<Rightarrow> store \<times> (error + nat)" where
  "exec_all [] s a = (s, Inr a)"
| "exec_all (st # sts) s a =
     (case exec st s a of
        (s', Inl e) \<Rightarrow> (s', Inl e)
      | (s', Inr a') \<Rightarrow> exec_all sts s' a')"

section \<open>Library functions taken as parameters\<close>

text \<open>
  Conversions between text and dates or floating point numbers and the geodesic distance
  are done by Python, pandas and geopy, and what they accept differs between their
  versions. They are parameters of the model:
  \<^item> \<open>parse_date s\<close> is what \<open>pd.to_datetime(format='%d/%m/%Y', errors='coerce')\<close> makes
    of a string: year, month and day, or \<open>None\<close> for \<open>NaT\<close> (a string that does not match
    the format, is no calendar date or is outside of what a timestamp can hold);
  \<^item> \<open>py_float s\<close> is Python's \<open>float(s)\<close>: \<open>None\<close> where it raises \<open>ValueError\<close>,
    \<open>Some None\<close> for a NaN, \<open>Some (Some x)\<close> for a number;
  \<^item> \<open>to_numeric_str s\<close> is what \<open>pd.to_numeric(errors='coerce')\<close> makes of a string:
    \<open>None\<close> for NaN;
  \<^item> \<open>geodesic_km lat lon\<close> is \<open>geodesic((lat, lon), colony).kilometers\<close>, \<open>None\<close>
    where geopy raises \<open>ValueError\<close> (a latitude outside of [-90, 90]);
  \<^item> \<open>py_str c\<close> is \<open>str\<close> of a cell that is not a string, as used in column names.
\<close>

record pylib =
  parse_date :: "string \<Rightarrow> (nat \<times> nat \<times> nat) option"
  py_float :: "string \<Rightarrow> real option option"
  to_numeric_str :: "string \<Rightarrow> real option"
  geodesic_km :: "real \<Rightarrow> real \<Rightarrow> real option"
  py_str :: "cell \<Rightarrow> string"

section \<open>Dates and times\<close>

text \<open>\<open>s.split(sep)\<close>: always at least one part.\<close>

fun split_on :: "char \<Rightarrow> string \<Rightarrow> string list" where
  "split_on sep [] = [[]]"
| "split_on sep (x # xs) =
     (if x = sep then [] # split_on sep xs
      else (case split_on sep xs of [] \<Rightarrow> [[x]] | p # ps \<Rightarrow> (x # p) # ps))"

text \<open>
  \<open>pd.to_datetime(column, format='%d/%m/%Y', errors='coerce')\<close> on one cell: a string is
  parsed, a timestamp is kept, and everything else (a missing value, a number, a boolean)
  gives \<open>NaT\<close>.
\<close>

fun to_datetime_cell :: "pylib \<Rightarrow> cell \<Rightarrow> cell" where
  "to_datetime_cell L (Str s) =
     (case parse_date L s of Some (y, m, d) \<Rightarrow> Stamp y m d 0 0 0 | None \<Rightarrow> Null)"
| "to_datetime_cell L (Stamp y m d h mi se) = Stamp y m d h mi se"
| "to_datetime_cell L _ = Null"

text \<open>
  Line 39: \<open>df['DateGMT'] = pd.to_datetime(df['DateGMT'], format='%d/%m/%Y',
  errors='coerce')\<close>. Reading the column raises \<open>KeyError\<close> when it is absent.
\<close>

definition convert_date :: "pylib \<Rightarrow> frame \<Rightarrow> error + frame" where
  "convert_date L t =
     (case getcol t ''DateGMT'' of
        None \<Rightarrow> Inl KeyError
      | Some xs \<Rightarrow> Inr (setcol ''DateGMT'' (map (to_datetime_cell L) xs) t))"

text \<open>
  Line 44: \<open>df[['hour', 'minute', 'second']] =
  df['TimeGMT'].str.split(':', expand=True).astype(float)\<close>.

  A column without any string does not get through this line. When pandas has typed it
  as numbers, booleans or timestamps the \<open>.str\<close> accessor raises \<open>AttributeError\<close>; when
  the accessor accepts it (a column of object type that is empty or holds missing values
  only) the split has at most one column and the assignment to three names raises
  \<open>ValueError\<close>. In a column with a string, a cell that is no string gives a row of
  NaN. \<open>expand=True\<close> makes as many columns as the longest row has parts and pads shorter
  rows with \<open>None\<close>, which \<open>astype(float)\<close> turns into NaN; a part that \<open>float\<close> rejects
  raises \<open>ValueError\<close>, and so does the assignment unless there are exactly three columns.
\<close>

fun is_str :: "cell \<Rightarrow> bool" where
  "is_str (Str s) = True"
| "is_str _ = False"

fun str_parts :: "cell \<Rightarrow> string list option" where
  "str_parts (Str s) = Some (split_on CHR '':'' s)"
| "str_parts _ = None"

definition split_width :: "cell list \<Rightarrow> nat" where
  "split_width xs =
     foldr max (map (\<lambda>c. case str_parts c of None \<Rightarrow> 0 | Some ps \<Rightarrow> length ps) xs) 0"

text \<open>Part \<open>k\<close> of a row as a float cell: \<open>None\<close> where \<open>float\<close> raises.\<close>

definition float_part :: "pylib \<Rightarrow> cell \<Rightarrow> nat \<Rightarrow> cell option" where
  "float_part L c k =
     (case str_parts c of
        None \<Rightarrow> Some Null
      | Some ps \<Rightarrow>
          if k < length ps
          then (case py_float L (ps ! k) of
                  None \<Rightarrow> None
                | Some None \<Rightarrow> Some Null
                | Some (Some x) \<Rightarrow> Some (Num x))
          else Some Null)"

definition float_column :: "pylib \<Rightarrow> cell list \<Rightarrow> nat \<Rightarrow> error + cell list" where
  "float_column L xs k =
     collect (map (\<lambda>c. case float_part L c k of None \<Rightarrow> Inl ValueError | Some v \<Rightarrow> Inr v) xs)"

definition split_time :: "pylib \<Rightarrow> frame \<Rightarrow> error + frame" where
  "split_time L t =
     (case getcol t ''TimeGMT'' of
        None \<Rightarrow> Inl KeyError
      | Some xs \<Rightarrow>
          if \<not> list_ex is_str xs then Inl AttributeError_or_ValueError
          else
            (case collect (map (float_column L xs) [0..<split_width xs]) of
               Inl e \<Rightarrow> Inl e
             | Inr [hs, ms, ss] \<Rightarrow>
                 Inr (setcol ''second'' ss (setcol ''minute'' ms (setcol ''hour'' hs t)))
             | Inr _ \<Rightarrow> Inl ValueError))"

text \<open>
  Lines 47 to 57, for one row: \<open>pd.Timestamp(year=..., hour=int(row['hour']) if not
  pd.isna(row['hour']) else 0, ...) if not pd.isna(row['DateGMT']) else pd.NaT\<close>.
  \<open>int\<close> truncates towards zero. \<open>pd.Timestamp\<close> hands the fields to the constructor of
  \<open>datetime\<close>, which first converts each argument to a C \<open>int\<close> and raises
  \<open>OverflowError\<close> for one that does not fit into 32 bits, and then raises \<open>ValueError\<close>
  for a field out of range. The three time columns hold floats, written by line 44; the
  date column holds timestamps or \<open>NaT\<close>, written by line 39.
\<close>

definition c_int :: "int \<Rightarrow> bool" where
  "c_int n = (- (2 ^ 31) \<le> n \<and> n < 2 ^ 31)"

definition py_int :: "real \<Rightarrow> int" where
  "py_int x = (if 0 \<le> x then \<lfloor>x\<rfloor> else \<lceil>x\<rceil>)"

fun time_field :: "cell \<Rightarrow> error + int" where
  "time_field Null = Inr 0"
| "time_field (Num x) = Inr (py_int x)"
| "time_field _ = Inl TypeError"

definition make_timestamp :: "cell \<Rightarrow> cell \<Rightarrow> cell \<Rightarrow> cell \<Rightarrow> error + cell" where
  "make_timestamp d h m s =
     (case d of
        Null \<Rightarrow> Inr Null
      | Stamp y mo da _ _ _ \<Rightarrow>
          (case collect [time_field h, time_field m, time_field s] of
             Inl e \<Rightarrow> Inl e
           | Inr fs \<Rightarrow>
               (case fs of
                  [hh, mm, ss] \<Rightarrow>
                    if \<not> (c_int hh \<and> c_int mm \<and> c_int ss) then Inl OverflowError
                    else if 0 \<le> hh \<and> hh < 24 \<and> 0 \<le> mm \<and> mm < 60 \<and> 0 \<le> ss \<and> ss < 60
                    then Inr (Stamp y mo da (nat hh) (nat mm) (nat ss))
                    else Inl ValueError
                | _ \<Rightarrow> Inl ValueError))
      | _ \<Rightarrow> Inl AttributeError)"

definition combine_timestamp :: "frame \<Rightarrow> error + frame" where
  "combine_timestamp t =
     (case (getcol t ''DateGMT'', getcol t ''hour'', getcol t ''minute'', getcol t ''second'') of
        (Some ds, Some hs, Some ms, Some ss) \<Rightarrow>
          (case collect (map (\<lambda>i. make_timestamp (ds ! i) (hs ! i) (ms ! i) (ss ! i))
                          [0..<nrows t]) of
             Inl e \<Rightarrow> Inl e
           | Inr ts \<Rightarrow> Inr (setcol ''Timestamp'' ts t))
      | _ \<Rightarrow> Inl KeyError)"

text \<open>Line 60: \<open>df = df.drop(columns=['hour', 'minute', 'second'])\<close>.\<close>

definition drop_time_parts :: "frame \<Rightarrow> error + frame" where
  "drop_time_parts t = Inr (dropcols [''hour'', ''minute'', ''second''] t)"

text \<open>
  Lines 39 to 60, the composition of the timestamp: the date is parsed, and the time of
  day is added when the column \<open>TimeGMT\<close> exists.
\<close>

definition timestamp_stmts :: "pylib \<Rightarrow> stmt list" where
  "timestamp_stmts L =
     [Assign (convert_date L),
      When (\<lambda>t. has_col t ''TimeGMT'') (Assign (split_time L)),
      When (\<lambda>t. has_col t ''TimeGMT'') (Assign combine_timestamp),
      When (\<lambda>t. has_col t ''TimeGMT'') (Rebind drop_time_parts)]"

definition compose_timestamp :: "pylib \<Rightarrow> frame \<Rightarrow> error + frame" where
  "compose_timestamp L t = run_steps (map effect (timestamp_stmts L)) t"

section \<open>Season mapping\<close>

text \<open>
  The dictionary \<open>season_mapping\<close> of \<open>process_data\<close>, in the order it is written. The
  labels are German; the \<open>u\<close> umlaut of the last label is the two bytes of its UTF-8
  encoding.
\<close>

definition Fruehling :: string where
  "Fruehling = ''Fr'' @ [CHR 0xC3, CHR 0xBC] @ ''hling''"

definition season_mapping :: "(nat \<times> string) list" where
  "season_mapping =
     [(12, ''Sommer''), (1, ''Sommer''), (2, ''Sommer''),
      (3, ''Herbst''), (4, ''Herbst''), (5, ''Herbst''),
      (6, ''Winter''), (7, ''Winter''), (8, ''Winter''),
      (9, Fruehling), (10, Fruehling), (11, Fruehling)]"

definition season_of :: "nat \<Rightarrow> string option" where
  "season_of m = map_of season_mapping m"

text \<open>\<open>series.map(season_mapping)\<close> on one cell of the month column.\<close>

fun season_cell :: "cell \<Rightarrow> cell" where
  "season_cell (Num x) =
     (case map_of (map (\<lambda>(k, v). (real k, v)) season_mapping) x of
        None \<Rightarrow> Null
      | Some v \<Rightarrow> Str v)"
| "season_cell _ = Null"

section \<open>The tracking pipeline\<close>

definition COLONY_LATITUDE :: real where
  "COLONY_LATITUDE = - 62.21"

definition COLONY_LONGITUDE :: real where
  "COLONY_LONGITUDE = - 58.42"

definition categorical_cols :: "string list" where
  "categorical_cols = [''Sex'', ''Age'', ''Breed Stage'', ''ArgosQuality'']"

definition position_cols :: "string list" where
  "position_cols = [''Latitude'', ''Longitude'']"

definition numeric_cols :: "string list" where
  "numeric_cols = [''distance_to_colony_km'']"

subsection \<open>Numeric coordinates\<close>

text \<open>
  Lines 63 to 65: \<open>df[col] = pd.to_numeric(df[col], errors='coerce')\<close> for each
  coordinate column that exists. A column read from a file holds numbers, strings and
  missing values.
\<close>

fun to_numeric_cell :: "pylib \<Rightarrow> cell \<Rightarrow> cell" where
  "to_numeric_cell L (Num x) = Num x"
| "to_numeric_cell L (Str s) = (case to_numeric_str L s of None \<Rightarrow> Null | Some x \<Rightarrow> Num x)"
| "to_numeric_cell L (Flag b) = Num (if b then 1 else 0)"
| "to_numeric_cell L _ = Null"

definition convert_position :: "pylib \<Rightarrow> string \<Rightarrow> frame \<Rightarrow> error + frame" where
  "convert_position L c t =
     (case getcol t c of
        None \<Rightarrow> Inr t
      | Some xs \<Rightarrow> Inr (setcol c (map (to_numeric_cell L) xs) t))"

definition convert_positions :: "pylib \<Rightarrow> frame \<Rightarrow> error + frame" where
  "convert_positions L t = run_steps (map (convert_position L) position_cols) t"

subsection \<open>Mode fill\<close>

text \<open>The distinct values of a list in the order of their first occurrence.\<close>

definition uniq :: "'a list \<Rightarrow> 'a list" where
  "uniq xs = rev (remdups (rev xs))"

fun is_num :: "cell \<Rightarrow> bool" where
  "is_num (Num x) = True"
| "is_num _ = False"

fun the_str :: "cell \<Rightarrow> string" where
  "the_str (Str s) = s"
| "the_str _ = []"

fun the_num :: "cell \<Rightarrow> real" where
  "the_num (Num x) = x"
| "the_num _ = 0"

fun is_flag :: "cell \<Rightarrow> bool" where
  "is_flag (Flag b) = True"
| "is_flag _ = False"

fun the_flag :: "cell \<Rightarrow> bool" where
  "the_flag (Flag b) = b"
| "the_flag _ = False"

fun is_stamp :: "cell \<Rightarrow> bool" where
  "is_stamp (Stamp y m d h mi se) = True"
| "is_stamp _ = False"

fun stamp_fields :: "cell \<Rightarrow> nat list" where
  "stamp_fields (Stamp y m d h mi se) = [y, m, d, h, mi, se]"
| "stamp_fields _ = []"

fun of_fields :: "nat list \<Rightarrow> cell" where
  "of_fields [y, m, d, h, mi, se] = Stamp y m d h mi se"
| "of_fields _ = Null"

text \<open>The value a number or a boolean has in a comparison: \<open>False\<close> is 0 and \<open>True\<close> is 1.\<close>

fun number_of :: "cell \<Rightarrow> real" where
  "number_of (Num x) = x"
| "number_of (Flag b) = (if b then 1 else 0)"
| "number_of _ = 0"

text \<open>
  pandas sorts the distinct values it found. Strings compare by code point, which is the
  order of their UTF-8 bytes; numbers and booleans by value, \<open>False\<close> before \<open>True\<close>;
  timestamps by time. Of values of several kinds, those that are no strings come first,
  in the order of their values, and then the strings (\<open>safe_sort\<close>; \<open>Series.mode\<close> of
  pandas 2 leaves modes of several kinds as it found them). Values that cannot be compared
  with each other, a timestamp among numbers, stay in the order of their first occurrence.
\<close>

definition sort_values :: "cell list \<Rightarrow> cell list" where
  "sort_values vs =
     (if list_all is_str vs then map Str (sort (map the_str vs))
      else if list_all is_num vs then map Num (sort (map the_num vs))
      else if list_all is_flag vs then map Flag (sort (map the_flag vs))
      else if list_all is_stamp vs then map of_fields (sort (map stamp_fields vs))
      else if list_all (\<lambda>c. is_str c \<or> is_num c \<or> is_flag c) vs
      then sort_key number_of (filter (\<lambda>c. \<not> is_str c) vs)
           @ map Str (sort (map the_str (filter is_str vs)))
      else vs)"

text \<open>
  \<open>series.mode()\<close>: the values that occur most often among the cells that are not
  missing, sorted.
\<close>

definition present :: "cell list \<Rightarrow> cell list" where
  "present xs = filter (\<lambda>c. \<not> isna c) xs"

definition top_count :: "cell list \<Rightarrow> nat" where
  "top_count xs = foldr max (map (count_list (present xs)) (uniq (present xs))) 0"

definition most_frequent :: "cell list \<Rightarrow> cell list" where
  "most_frequent xs =
     filter (\<lambda>u. count_list (present xs) u = top_count xs) (uniq (present xs))"

definition mode_values :: "cell list \<Rightarrow> cell list" where
  "mode_values xs = sort_values (most_frequent xs)"

definition fillna :: "cell \<Rightarrow> cell list \<Rightarrow> cell list" where
  "fillna v xs = map (\<lambda>c. if isna c then v else c) xs"

text \<open>
  Lines 71 and 72: \<open>if col in df.columns and df[col].isna().any():
  df[col] = df[col].fillna(df[col].mode()[0])\<close>. Element 0 of an empty series of modes
  raises \<open>KeyError\<close>.
\<close>

definition fill_mode :: "string \<Rightarrow> frame \<Rightarrow> error + frame" where
  "fill_mode c t =
     (case getcol t c of
        None \<Rightarrow> Inr t
      | Some xs \<Rightarrow>
          if list_ex isna xs
          then (case mode_values xs of
                  [] \<Rightarrow> Inl KeyError
                | m # ms \<Rightarrow> Inr (setcol c (fillna m xs) t))
          else Inr t)"

definition impute_categorical :: "frame \<Rightarrow> error + frame" where
  "impute_categorical t = run_steps (map fill_mode categorical_cols) t"

subsection \<open>Nearest-neighbour imputation of the coordinates\<close>

text \<open>
  \<open>KNNImputer(n_neighbors=5).fit_transform\<close> on the two coordinate columns, a row being
  a pair of optional numbers. The distance between two rows is scikit-learn's
  \<open>nan_euclidean\<close> distance, here squared since only its order is used: the squared
  differences of the coordinates both rows have, scaled by the number of coordinates over
  the number of those used; undefined when the rows share no coordinate.

  A missing entry is filled with the mean of that coordinate over the nearest donors
  (rows that have the coordinate) among those at a defined distance, at most
  \<open>n_neighbors\<close> of them, or with the mean over all donors when no donor is at a defined
  distance. Entries that are present are not written. Where distances tie the model
  takes the earlier row (the library does not fix the choice). A coordinate that no row
  has is dropped from the result by the library, and the assignment of the result to the
  two columns raises \<open>ValueError\<close>.
\<close>

type_synonym coords = "real option \<times> real option"

definition mean :: "real list \<Rightarrow> real" where
  "mean xs = sum_list xs / real (length xs)"

definition sq_diff :: "real option \<Rightarrow> real option \<Rightarrow> real list" where
  "sq_diff a b = (case (a, b) of (Some x, Some y) \<Rightarrow> [(x - y)\<^sup>2] | _ \<Rightarrow> [])"

definition sq_dist :: "coords \<Rightarrow> coords \<Rightarrow> real option" where
  "sq_dist p q =
     (let ds = sq_diff (fst p) (fst q) @ sq_diff (snd p) (snd q)
      in if ds = [] then None else Some (2 / real (length ds) * sum_list ds))"

definition donors :: "(coords \<Rightarrow> real option) \<Rightarrow> coords list \<Rightarrow> real list" where
  "donors sel X = List.map_filter sel X"

definition near_donors :: "(coords \<Rightarrow> real option) \<Rightarrow> coords list \<Rightarrow> coords \<Rightarrow> (real \<times> real) list" where
  "near_donors sel X r =
     List.map_filter
       (\<lambda>d. case (sq_dist r d, sel d) of (Some ds, Some v) \<Rightarrow> Some (ds, v) | _ \<Rightarrow> None) X"

definition knn_value :: "nat \<Rightarrow> (coords \<Rightarrow> real option) \<Rightarrow> coords list \<Rightarrow> coords \<Rightarrow> real" where
  "knn_value k sel X r =
     (if near_donors sel X r = [] then mean (donors sel X)
      else mean (map snd (take (min k (length (donors sel X)))
                            (sort_key fst (near_donors sel X r)))))"

definition knn_fill :: "nat \<Rightarrow> (coords \<Rightarrow> real option) \<Rightarrow> coords list \<Rightarrow> coords \<Rightarrow> real" where
  "knn_fill k sel X r = (case sel r of Some x \<Rightarrow> x | None \<Rightarrow> knn_value k sel X r)"

definition knn_impute :: "nat \<Rightarrow> coords list \<Rightarrow> error + (real \<times> real) list" where
  "knn_impute k X =
     (if donors fst X = [] \<or> donors snd X = [] then Inl ValueError
      else Inr (map (\<lambda>r. (knn_fill k fst X r, knn_fill k snd X r)) X))"

fun float_of_cell :: "cell \<Rightarrow> error + real option" where
  "float_of_cell Null = Inr None"
| "float_of_cell (Num x) = Inr (Some x)"
| "float_of_cell _ = Inl ValueError"

text \<open>
  Lines 75 to 78: \<open>if all(col in df.columns for col in position_cols) and
  df[position_cols].isna().any().any(): df[position_cols] =
  imputer.fit_transform(df[position_cols])\<close>.
\<close>

definition impute_positions :: "frame \<Rightarrow> error + frame" where
  "impute_positions t =
     (case (getcol t ''Latitude'', getcol t ''Longitude'') of
        (Some las, Some los) \<Rightarrow>
          if list_ex isna las \<or> list_ex isna los
          then (case (collect (map float_of_cell las), collect (map float_of_cell los)) of
                  (Inr xs, Inr ys) \<Rightarrow>
                    (case knn_impute 5 (zip xs ys) of
                       Inl e \<Rightarrow> Inl e
                     | Inr ps \<Rightarrow>
                         Inr (setcol ''Longitude'' (map (\<lambda>p. Num (snd p)) ps)
                               (setcol ''Latitude'' (map (\<lambda>p. Num (fst p)) ps) t)))
                | _ \<Rightarrow> Inl ValueError)
          else Inr t
      | _ \<Rightarrow> Inr t)"

subsection \<open>Distance to the colony\<close>

text \<open>
  Lines 82 to 86, for one row: \<open>geodesic((row['Latitude'], row['Longitude']),
  (COLONY_LATITUDE, COLONY_LONGITUDE)).kilometers if not pd.isna(row['Latitude']) and not
  pd.isna(row['Longitude']) else np.nan\<close>. After line 65 a coordinate is a number or
  missing.
\<close>

definition distance_cell :: "pylib \<Rightarrow> cell \<Rightarrow> cell \<Rightarrow> error + cell" where
  "distance_cell L la lo =
     (if isna la \<or> isna lo then Inr Null
      else (case (la, lo) of
              (Num x, Num y) \<Rightarrow>
                (case geodesic_km L x y of None \<Rightarrow> Inl ValueError | Some d \<Rightarrow> Inr (Num d))
            | _ \<Rightarrow> Inl TypeError))"

text \<open>
  The function applied to each row reads both coordinate columns by name, which raises
  \<open>KeyError\<close> when one is absent. (On a frame without rows pandas does not call the
  function and fails on the assignment instead.)
\<close>

definition add_distance :: "pylib \<Rightarrow> frame \<Rightarrow> error + frame" where
  "add_distance L t =
     (case (getcol t ''Latitude'', getcol t ''Longitude'') of
        (Some las, Some los) \<Rightarrow>
          (case collect (map (\<lambda>i. distance_cell L (las ! i) (los ! i)) [0..<nrows t]) of
             Inl e \<Rightarrow> Inl e
           | Inr ds \<Rightarrow> Inr (setcol ''distance_to_colony_km'' ds t))
      | _ \<Rightarrow> Inl KeyError)"

subsection \<open>Hour, month and season\<close>

text \<open>
  Lines 89 to 100. The \<open>.dt\<close> accessor raises \<open>AttributeError\<close> on a column that does
  not hold timestamps.
\<close>

fun is_datetime :: "cell \<Rightarrow> bool" where
  "is_datetime Null = True"
| "is_datetime (Stamp y m d h mi se) = True"
| "is_datetime _ = False"

fun hour_cell :: "cell \<Rightarrow> cell" where
  "hour_cell (Stamp y m d h mi se) = Num (real h)"
| "hour_cell _ = Null"

fun month_cell :: "cell \<Rightarrow> cell" where
  "month_cell (Stamp y m d h mi se) = Num (real m)"
| "month_cell _ = Null"

definition add_time_features :: "frame \<Rightarrow> error + frame" where
  "add_time_features t =
     (case getcol t ''Timestamp'' of
        None \<Rightarrow> Inr t
      | Some ts \<Rightarrow>
          if \<not> list_all is_datetime ts then Inl AttributeError
          else Inr (setcol ''season'' (map (\<lambda>c. season_cell (month_cell c)) ts)
                     (setcol ''month'' (map month_cell ts)
                       (setcol ''hour_of_day'' (map hour_cell ts) t))))"

subsection \<open>One-hot encoding\<close>

text \<open>
  Line 104: \<open>pd.get_dummies(df, columns=cs, prefix=cs, dummy_na=True)\<close>. Selecting the
  columns to encode raises \<open>KeyError\<close> when one of them is absent. The result has the
  columns that are not encoded, then for each encoded column, in the order of \<open>cs\<close>, one
  boolean column per distinct value that is not missing and one more for missing values,
  named by the prefix, an underscore and the value (\<open>nan\<close> for the last).
\<close>

definition levels :: "cell list \<Rightarrow> cell list" where
  "levels xs = sort_values (uniq (present xs))"

definition level_name :: "pylib \<Rightarrow> cell \<Rightarrow> string" where
  "level_name L v = (case v of Str s \<Rightarrow> s | _ \<Rightarrow> py_str L v)"

definition dummies :: "pylib \<Rightarrow> string \<Rightarrow> cell list \<Rightarrow> (string \<times> cell list) list" where
  "dummies L pre xs =
     map (\<lambda>v. (pre @ ''_'' @ level_name L v, map (\<lambda>c. Flag (c = v)) xs)) (levels xs)
     @ [(pre @ ''_nan'', map (\<lambda>c. Flag (isna c)) xs)]"

definition get_dummies :: "pylib \<Rightarrow> string list \<Rightarrow> frame \<Rightarrow> error + frame" where
  "get_dummies L cs t =
     (if list_all (has_col t) cs
      then Inr (t\<lparr>columns :=
                  filter (\<lambda>(n, xs). n \<notin> set cs) (columns t)
                  @ concat (map (\<lambda>c. case getcol t c of None \<Rightarrow> [] | Some xs \<Rightarrow> dummies L c xs) cs)\<rparr>)
      else Inl KeyError)"

subsection \<open>Normalisation\<close>

text \<open>
  Lines 107 to 112: \<open>df[numeric_cols] =
  StandardScaler().fit_transform(df[numeric_cols].fillna(0))\<close> for the numeric columns
  that exist. The scaler subtracts the mean and divides by the standard deviation of the
  column (over all its rows), dividing by 1 where the deviation is 0; it raises
  \<open>ValueError\<close> on a column without rows.
\<close>

definition standard_scale :: "real list \<Rightarrow> real list" where
  "standard_scale xs =
     (let m = mean xs;
          sd = sqrt (mean (map (\<lambda>x. (x - m)\<^sup>2) xs))
      in map (\<lambda>x. (x - m) / (if sd = 0 then 1 else sd)) xs)"

fun filled_number :: "cell \<Rightarrow> error + real" where
  "filled_number Null = Inr 0"
| "filled_number (Num x) = Inr x"
| "filled_number _ = Inl ValueError"

definition scale_column :: "string \<Rightarrow> frame \<Rightarrow> error + frame" where
  "scale_column c t =
     (case getcol t c of
        None \<Rightarrow> Inr t
      | Some xs \<Rightarrow>
          (case collect (map filled_number xs) of
             Inl e \<Rightarrow> Inl e
           | Inr vs \<Rightarrow>
               if vs = [] then Inl ValueError
               else Inr (setcol c (map Num (standard_scale vs)) t)))"

definition normalize :: "frame \<Rightarrow> error + frame" where
  "normalize t = run_steps (map scale_column numeric_cols) t"

subsection \<open>The whole of \<open>process_data\<close>\<close>

text \<open>
  The statements of \<open>process_data\<close> after the copy, in order, with the loops over the
  column lists unrolled.
\<close>

definition process_stmts :: "pylib \<Rightarrow> stmt list" where
  "process_stmts L =
     timestamp_stmts L
     @ map (\<lambda>c. Assign (convert_position L c)) position_cols
     @ map (\<lambda>c. Assign (fill_mode c)) categorical_cols
     @ [Assign impute_positions,
        Assign (add_distance L),
        Assign add_time_features,
        Rebind (get_dummies L categorical_cols)]
     @ map (\<lambda>c. Assign (scale_column c)) numeric_cols"

definition process_steps :: "pylib \<Rightarrow> (frame \<Rightarrow> error + frame) list" where
  "process_steps L = map effect (process_stmts L)"

text \<open>The table that \<open>process_data\<close> returns.\<close>

definition process_data :: "pylib \<Rightarrow> frame \<Rightarrow> error + frame" where
  "process_data L t = run_steps (process_steps L) t"

text \<open>
  \<open>process_data\<close> on objects: \<open>df.copy()\<close> allocates a copy of the table it is given,
  the statements run on the copy.
\<close>

definition process_data_store :: "pylib \<Rightarrow> store \<Rightarrow> nat \<Rightarrow> store \<times> (error + nat)" where
  "process_data_store L s p = exec_all (process_stmts L) (s @ [s ! p]) (length s)"

section \<open>The trip script\<close>

text \<open>Rows selected by their positions, and by a condition on the position.\<close>

definition take_rows :: "nat list \<Rightarrow> frame \<Rightarrow> frame" where
  "take_rows idx t =
     \<lparr>nrows = length idx, columns = map (\<lambda>(n, xs). (n, map (nth xs) idx)) (columns t)\<rparr>"

definition where_rows :: "(nat \<Rightarrow> bool) \<Rightarrow> frame \<Rightarrow> frame" where
  "where_rows p t = take_rows (filter p [0..<nrows t]) t"

text \<open>
  \<open>df.dropna(subset=cs)\<close>: the rows in which no column of \<open>cs\<close> is missing;
  \<open>KeyError\<close> when a column of \<open>cs\<close> is absent.
\<close>

definition present_at :: "frame \<Rightarrow> nat \<Rightarrow> string \<Rightarrow> bool" where
  "present_at t i c = (case getcol t c of None \<Rightarrow> False | Some xs \<Rightarrow> \<not> isna (xs ! i))"

definition dropna_subset :: "string list \<Rightarrow> frame \<Rightarrow> error + frame" where
  "dropna_subset cs t =
     (if list_all (has_col t) cs
      then Inr (where_rows (\<lambda>i. list_all (present_at t i) cs) t)
      else Inl KeyError)"

text \<open>
  \<open>df[df[c] > 0]\<close>: a missing value is not greater than 0; comparing a string or a
  timestamp with 0 raises \<open>TypeError\<close>.
\<close>

fun gt_zero :: "cell \<Rightarrow> error + bool" where
  "gt_zero Null = Inr False"
| "gt_zero (Num x) = Inr (0 < x)"
| "gt_zero (Flag b) = Inr b"
| "gt_zero _ = Inl TypeError"

definition keep_positive :: "string \<Rightarrow> frame \<Rightarrow> error + frame" where
  "keep_positive c t =
     (case getcol t c of
        None \<Rightarrow> Inl KeyError
      | Some xs \<Rightarrow>
          (case collect (map gt_zero xs) of
             Inl e \<Rightarrow> Inl e
           | Inr keep \<Rightarrow> Inr (where_rows (\<lambda>i. keep ! i) t)))"

definition clean_data :: "frame \<Rightarrow> error + frame" where
  "clean_data t =
     run_steps
       [dropna_subset [''pickup_datetime'', ''dropoff_datetime''],
        keep_positive ''fare_amount'',
        keep_positive ''trip_distance''] t"

section \<open>Loading\<close>

text \<open>
  \<open>pd.concat(dfs, ignore_index=True)\<close>: the rows of the tables one after the other
  under the union of their columns, in the order in which the columns first occur; a
  table that lacks a column has missing values there. An empty list raises \<open>ValueError\<close>.
\<close>

definition column_or_nulls :: "string \<Rightarrow> frame \<Rightarrow> cell list" where
  "column_or_nulls c t = (case getcol t c of None \<Rightarrow> replicate (nrows t) Null | Some xs \<Rightarrow> xs)"

definition concat_frames :: "frame list \<Rightarrow> error + frame" where
  "concat_frames ts =
     (if ts = [] then Inl ValueError
      else Inr \<lparr>nrows = sum_list (map nrows ts),
                columns = map (\<lambda>c. (c, concat (map (column_or_nulls c) ts)))
                            (uniq (concat (map names ts)))\<rparr>)"

text \<open>
  Reading the files is the work of the file system and of pandas: both loaders are given
  the tables read from the files that \<open>glob\<close> matched, in the order of the match.
  \<open>load_data\<close> checks the list before it reads (lines 16 to 19 of the tracking script);
  \<open>merge_parquet_files\<close> concatenates what it read, cleans it and writes the result,
  which is the table returned here.
\<close>

definition load_data :: "frame list \<Rightarrow> error + frame" where
  "load_data files = (if files = [] then Inl FileNotFoundError else concat_frames files)"

definition merge_parquet_files :: "frame list \<Rightarrow> error + frame" where
  "merge_parquet_files files = and_then (concat_frames files) clean_data"

section \<open>A library and tables for examples\<close>

text \<open>
  To run the model on a table the library parameters are instantiated: dates are written
  in ASCII digits, numbers as plain decimal numerals with an optional sign and fraction,
  and the distance is the great-circle distance on a sphere of the mean earth radius,
  which stands in for the geodesic on the ellipsoid. The general theorems hold for every
  library; this one agrees with every version of pandas on the strings of the examples.
\<close>

definition is_digit :: "char \<Rightarrow> bool" where
  "is_digit c = (c \<in> set ''0123456789'')"

definition digit_val :: "char \<Rightarrow> nat" where
  "digit_val c = of_char c - 48"

definition digits_val :: "string \<Rightarrow> nat" where
  "digits_val s = foldl (\<lambda>n c. 10 * n + digit_val c) 0 s"

text \<open>
  Dates are written in ASCII: a day \<open>3[0-1]|[1-2]\d|0[1-9]|[1-9]| [1-9]\<close>, a month
  \<open>1[0-2]|0[1-9]|[1-9]\<close> and a year of four digits, separated by \<open>/\<close>.
\<close>

definition day_field :: "string \<Rightarrow> nat option" where
  "day_field s =
     (case s of
        [a] \<Rightarrow> if is_digit a \<and> a \<noteq> CHR ''0'' then Some (digit_val a) else None
      | [a, b] \<Rightarrow>
          if a = CHR '' '' \<and> is_digit b \<and> b \<noteq> CHR ''0'' then Some (digit_val b)
          else if is_digit a \<and> is_digit b \<and> 1 \<le> digits_val s \<and> digits_val s \<le> 31
          then Some (digits_val s) else None
      | _ \<Rightarrow> None)"

definition month_field :: "string \<Rightarrow> nat option" where
  "month_field s =
     (case s of
        [a] \<Rightarrow> if is_digit a \<and> a \<noteq> CHR ''0'' then Some (digit_val a) else None
      | [a, b] \<Rightarrow>
          if is_digit a \<and> is_digit b \<and> 1 \<le> digits_val s \<and> digits_val s \<le> 12
          then Some (digits_val s) else None
      | _ \<Rightarrow> None)"

definition year_field :: "string \<Rightarrow> nat option" where
  "year_field s = (if length s = 4 \<and> list_all is_digit s then Some (digits_val s) else None)"

definition leap_year :: "nat \<Rightarrow> bool" where
  "leap_year y = (y mod 4 = 0 \<and> (y mod 400 = 0 \<or> y mod 100 \<noteq> 0))"

definition days_in_month :: "nat \<Rightarrow> nat \<Rightarrow> nat" where
  "days_in_month y m =
     (if m = 2 then (if leap_year y then 29 else 28)
      else if m \<in> {4, 6, 9, 11} then 30 else 31)"

text \<open>
  The dates are kept to those that a timestamp of nanosecond resolution holds at midnight,
  from 1677-09-22 to 2262-04-11.
\<close>

definition in_ns_bounds :: "nat \<Rightarrow> nat \<Rightarrow> nat \<Rightarrow> bool" where
  "in_ns_bounds y m d =
     ((1677 < y \<or> (y = 1677 \<and> (9 < m \<or> (m = 9 \<and> 22 \<le> d))))
      \<and> (y < 2262 \<or> (y = 2262 \<and> (m < 4 \<or> (m = 4 \<and> d \<le> 11)))))"

text \<open>
  The date parser of the examples reads a date as pandas 2 does when it is written in
  ASCII. pandas 3 also takes dates outside of the nanosecond range, and both take the
  other decimal digits of Unicode: the model has the parser as a parameter for this.
\<close>

definition parse_dmy :: "string \<Rightarrow> (nat \<times> nat \<times> nat) option" where
  "parse_dmy s =
     (case split_on CHR ''/'' s of
        [ds, ms, ys] \<Rightarrow>
          (case (day_field ds, month_field ms, year_field ys) of
             (Some d, Some m, Some y) \<Rightarrow>
               if 1 \<le> y \<and> d \<le> days_in_month y m \<and> in_ns_bounds y m d then Some (y, m, d)
               else None
           | _ \<Rightarrow> None)
      | _ \<Rightarrow> None)"

definition decimal_unsigned :: "string \<Rightarrow> real option" where
  "decimal_unsigned s =
     (case split_on CHR ''.'' s of
        [a] \<Rightarrow> if a \<noteq> [] \<and> list_all is_digit a then Some (real (digits_val a)) else None
      | [a, b] \<Rightarrow>
          if a @ b \<noteq> [] \<and> list_all is_digit a \<and> list_all is_digit b
          then Some (real (digits_val a) + real (digits_val b) / 10 ^ length b)
          else None
      | _ \<Rightarrow> None)"

definition decimal :: "string \<Rightarrow> real option" where
  "decimal s =
     (case s of
        [] \<Rightarrow> None
      | c # r \<Rightarrow>
          if c = CHR ''-'' then map_option uminus (decimal_unsigned r)
          else if c = CHR ''+'' then decimal_unsigned r
          else decimal_unsigned s)"

definition great_circle_km :: "real \<Rightarrow> real \<Rightarrow> real option" where
  "great_circle_km lat lon =
     (if - 90 \<le> lat \<and> lat \<le> 90
      then Some (2 * 6371.009 *
             arcsin (sqrt ((sin ((lat - COLONY_LATITUDE) * pi / 360))\<^sup>2
                           + cos (lat * pi / 180) * cos (COLONY_LATITUDE * pi / 180)
                             * (sin ((lon - COLONY_LONGITUDE) * pi / 360))\<^sup>2)))
      else None)"

fun show_nat :: "nat \<Rightarrow> string" where
  "show_nat n =
     (if n < 10 then [char_of (48 + n)] else show_nat (n div 10) @ [char_of (48 + n mod 10)])"

declare show_nat.simps [simp del]

text \<open>Names for values that are not strings; whole numbers are written as floats.\<close>

fun plain_str :: "cell \<Rightarrow> string" where
  "plain_str Null = ''nan''"
| "plain_str (Str s) = s"
| "plain_str (Num x) = (if x < 0 then ''-'' else []) @ show_nat (nat \<bar>py_int x\<bar>) @ ''.0''"
| "plain_str (Flag b) = (if b then ''True'' else ''False'')"
| "plain_str (Stamp y m d h mi se) =
     show_nat y @ ''-'' @ show_nat m @ ''-'' @ show_nat d @ '' ''
     @ show_nat h @ '':'' @ show_nat mi @ '':'' @ show_nat se"

definition plain_lib :: pylib where
  "plain_lib =
     \<lparr>parse_date = parse_dmy,
      py_float = (\<lambda>s. map_option Some (decimal s)),
      to_numeric_str = decimal,
      geodesic_km = great_circle_km,
      py_str = plain_str\<rparr>"

text \<open>
  Three fixes of a bird at the colony: the second has an impossible date, a time without
  seconds, no latitude and no sex; the third has no time.
\<close>

definition tracks :: frame where
  "tracks =
     \<lparr>nrows = 3,
      columns =
        [(''DateGMT'', [Str ''05/01/2020'', Str ''31/02/2020'', Str ''06/07/2020'']),
         (''TimeGMT'', [Str ''12:30:45'', Str ''08:15'', Null]),
         (''Latitude'', [Num (- 62.21), Null, Num (- 62.21)]),
         (''Longitude'', [Num (- 58.42), Num (- 58.42), Num (- 58.42)]),
         (''Sex'', [Str ''F'', Null, Str ''F'']),
         (''Age'', [Str ''adult'', Str ''adult'', Str ''adult'']),
         (''Breed Stage'', [Str ''chick'', Str ''chick'', Str ''brood'']),
         (''ArgosQuality'', [Str ''3'', Str ''A'', Str ''3''])]\<rparr>"

text \<open>
  The dates and times of three fixes: the second has an impossible date and a time that
  is no time of day, the third has no time.
\<close>

definition sightings :: frame where
  "sightings =
     \<lparr>nrows = 3,
      columns =
        [(''DateGMT'', [Str ''05/01/2020'', Str ''31/02/2020'', Str ''06/07/2020'']),
         (''TimeGMT'', [Str ''12:30:45'', Str ''25:61'', Null])]\<rparr>"

text \<open>The table that \<open>process_data\<close> returns for the fixes at the colony.\<close>

definition processed_tracks :: frame where
  "processed_tracks =
     \<lparr>nrows = 3,
      columns =
        [(''DateGMT'', [Stamp 2020 1 5 0 0 0, Null, Stamp 2020 7 6 0 0 0]),
         (''TimeGMT'', [Str ''12:30:45'', Str ''08:15'', Null]),
         (''Latitude'', [Num (- 62.21), Num (- 62.21), Num (- 62.21)]),
         (''Longitude'', [Num (- 58.42), Num (- 58.42), Num (- 58.42)]),
         (''Timestamp'', [Stamp 2020 1 5 12 30 45, Null, Stamp 2020 7 6 0 0 0]),
         (''distance_to_colony_km'', [Num 0, Num 0, Num 0]),
         (''hour_of_day'', [Num 12, Null, Num 0]),
         (''month'', [Num 1, Null, Num 7]),
         (''season'', [Str ''Sommer'', Null, Str ''Winter'']),
         (''Sex_F'', [Flag True, Flag True, Flag True]),
         (''Sex_nan'', [Flag False, Flag False, Flag False]),
         (''Age_adult'', [Flag True, Flag True, Flag True]),
         (''Age_nan'', [Flag False, Flag False, Flag False]),
         (''Breed Stage_brood'', [Flag False, Flag False, Flag True]),
         (''Breed Stage_chick'', [Flag True, Flag True, Flag False]),
         (''Breed Stage_nan'', [Flag False, Flag False, Flag False]),
         (''ArgosQuality_3'', [Flag True, Flag False, Flag True]),
         (''ArgosQuality_A'', [Flag False, Flag True, Flag False]),
         (''ArgosQuality_nan'', [Flag False, Flag False, Flag False])]\<rparr>"

text \<open>Four trips: a valid one, one with a negative fare, one without pickup time, one of length zero.\<close>

definition trips :: frame where
  "trips =
     \<lparr>nrows = 4,
      columns =
        [(''pickup_datetime'',
            [Stamp 2024 1 1 8 0 0, Stamp 2024 1 1 9 0 0, Null, Stamp 2024 1 2 7 0 0]),
         (''dropoff_datetime'',
            [Stamp 2024 1 1 8 20 0, Stamp 2024 1 1 9 5 0, Stamp 2024 1 1 9 30 0,
             Stamp 2024 1 2 7 0 0]),
         (''fare_amount'', [Num 12.5, Num (- 5), Num 7, Num 3]),
         (''trip_distance'', [Num 3.2, Num 1, Num 2, Num 0])]\<rparr>"

section \<open>Properties\<close>

subsection \<open>Season mapping\<close>

text \<open>
  Claim C6 says that month 1 maps to the label "summer" and month 7 to "winter". The
  mapping's label for month 1 is the German word \<open>Sommer\<close>, not \<open>summer\<close>.
\<close>

theorem season_summer_label_counterexample:
  "season_of 1 \<noteq> Some ''summer''"
  by (simp add: season_of_def season_mapping_def)

text \<open>
  Claim C6, amended: the season mapping is defined on exactly the months 1 to 12 and
  follows the southern-hemisphere convention with German labels: December to February
  map to \<open>Sommer\<close>, March to May to \<open>Herbst\<close>, June to August to \<open>Winter\<close>, September
  to November to \<open>Fr\"uhling\<close>; in particular month 1 maps to \<open>Sommer\<close> and month 7 to
  \<open>Winter\<close>.
\<close>

theorem season_mapping_total:
  "dom season_of = {1..12}
   \<and> season_of 12 = Some ''Sommer'' \<and> season_of 1 = Some ''Sommer'' \<and> season_of 2 = Some ''Sommer''
   \<and> season_of 3 = Some ''Herbst'' \<and> season_of 4 = Some ''Herbst'' \<and> season_of 5 = Some ''Herbst''
   \<and> season_of 6 = Some ''Winter'' \<and> season_of 7 = Some ''Winter'' \<and> season_of 8 = Some ''Winter''
   \<and> season_of 9 = Some Fruehling \<and> season_of 10 = Some Fruehling \<and> season_of 11 = Some Fruehling"
proof -
  have eq: "season_of = map_of season_mapping"
    by (rule ext) (simp add: season_of_def)
  have "dom season_of = fst ` set season_mapping"
    by (simp only: eq dom_map_of_conv_image_fst)
  also have "\<dots> = {12, 1, 2, 3, 4, 5, 6, 7, 8, 9, 10, 11}"
    by (simp add: season_mapping_def)
  also have "\<dots> = {1..12::nat}"
  proof (rule set_eqI)
    fix x :: nat
    show "x \<in> {12, 1, 2, 3, 4, 5, 6, 7, 8, 9, 10, 11} \<longleftrightarrow> x \<in> {1..12}"
      by (simp only: insert_iff empty_iff atLeastAtMost_iff) arith
  qed
  finally show ?thesis
    by (simp add: season_of_def season_mapping_def)
qed

subsection \<open>Columns of a table\<close>

lemmas frame_defs = getcol_def setcol_def has_col_def names_def dropcols_def and_then_def isna_def

lemma map_of_replace:
  "map_of (map (\<lambda>(n, xs). if n = c then (n, v) else (n, xs)) cs) d
   = (if d = c \<and> c \<in> fst ` set cs then Some v else map_of cs d)"
proof (induction cs)
  case Nil
  show ?case by simp
next
  case (Cons p cs)
  obtain n xs where p: "p = (n, xs)" by (cases p)
  show ?case
  proof (cases "d = c")
    case True
    with Cons show ?thesis by (simp add: p)
  next
    case False
    with Cons show ?thesis by (simp add: p)
  qed
qed

lemma getcol_setcol: "getcol (setcol c v t) d = (if d = c then Some v else getcol t d)"
proof (cases "has_col t c")
  case True
  then show ?thesis
    by (simp add: getcol_def setcol_def has_col_def names_def map_of_replace)
next
  case False
  then have "map_of (columns t) c = None"
    by (simp add: has_col_def names_def map_of_eq_None_iff)
  with False show ?thesis
    by (simp add: getcol_def setcol_def map_add_def split: option.splits)
qed

lemma has_col_getcol: "has_col t c \<longleftrightarrow> getcol t c \<noteq> None"
  by (simp add: has_col_def getcol_def names_def map_of_eq_None_iff)


subsection \<open>One-hot encoding\<close>

lemma set_uniq: "set (uniq xs) = set xs"
  by (simp add: uniq_def)

lemma distinct_uniq: "distinct (uniq xs)"
  by (simp add: uniq_def)

lemma str_the_str: "is_str c \<Longrightarrow> Str (the_str c) = c"
  by (cases c) simp_all

lemma num_the_num: "is_num c \<Longrightarrow> Num (the_num c) = c"
  by (cases c) simp_all

lemma flag_the_flag: "is_flag c \<Longrightarrow> Flag (the_flag c) = c"
  by (cases c) simp_all

lemma stamp_of_fields: "is_stamp c \<Longrightarrow> of_fields (stamp_fields c) = c"
  by (cases c) simp_all

lemma map_inverse: "(\<And>x. x \<in> set vs \<Longrightarrow> g (f x) = x) \<Longrightarrow> g ` f ` set vs = set vs"
  by (force simp: image_iff)

lemma set_mixed:
  "set (sort_key number_of (filter (\<lambda>c. \<not> is_str c) vs)
        @ map Str (sort (map the_str (filter is_str vs)))) = set vs"
proof -
  have "Str ` the_str ` set (filter is_str vs) = set (filter is_str vs)"
    by (rule map_inverse) (simp add: str_the_str)
  then have "set (map Str (sort (map the_str (filter is_str vs)))) = set (filter is_str vs)"
    by simp
  moreover have "set (sort_key number_of (filter (\<lambda>c. \<not> is_str c) vs)) = set (filter (\<lambda>c. \<not> is_str c) vs)"
    by simp
  ultimately have "set (sort_key number_of (filter (\<lambda>c. \<not> is_str c) vs)
        @ map Str (sort (map the_str (filter is_str vs))))
      = set (filter (\<lambda>c. \<not> is_str c) vs) \<union> set (filter is_str vs)"
    by (simp only: set_append)
  also have "\<dots> = set vs"
    by auto
  finally show ?thesis .
qed

lemma sort_values_cases:
  assumes "list_all is_str vs \<Longrightarrow> P (map Str (sort (map the_str vs)))"
    and "list_all is_num vs \<Longrightarrow> P (map Num (sort (map the_num vs)))"
    and "list_all is_flag vs \<Longrightarrow> P (map Flag (sort (map the_flag vs)))"
    and "list_all is_stamp vs \<Longrightarrow> P (map of_fields (sort (map stamp_fields vs)))"
    and "P (sort_key number_of (filter (\<lambda>c. \<not> is_str c) vs)
            @ map Str (sort (map the_str (filter is_str vs))))"
    and "P vs"
  shows "P (sort_values vs)"
proof (cases "list_all is_str vs")
  case True
  with assms(1) show ?thesis by (simp only: sort_values_def if_True)
next
  case s: False
  show ?thesis
  proof (cases "list_all is_num vs")
    case True
    with s assms(2) show ?thesis by (simp only: sort_values_def if_True if_False)
  next
    case n: False
    show ?thesis
    proof (cases "list_all is_flag vs")
      case True
      with s n assms(3) show ?thesis by (simp only: sort_values_def if_True if_False)
    next
      case f: False
      show ?thesis
      proof (cases "list_all is_stamp vs")
        case True
        with s n f assms(4) show ?thesis by (simp only: sort_values_def if_True if_False)
      next
        case False
        with s n f assms(5,6) show ?thesis
          by (cases "list_all (\<lambda>c. is_str c \<or> is_num c \<or> is_flag c) vs")
             (simp_all only: sort_values_def if_True if_False)
      qed
    qed
  qed
qed

lemma set_sort_values: "set (sort_values vs) = set vs"
proof -
  have a: "set (map Str (sort (map the_str vs))) = set vs" if "list_all is_str vs"
  proof -
    have "Str ` the_str ` set vs = set vs"
      by (rule map_inverse) (use that in \<open>simp add: list_all_iff str_the_str\<close>)
    then show ?thesis by simp
  qed
  have b: "set (map Num (sort (map the_num vs))) = set vs" if "list_all is_num vs"
  proof -
    have "Num ` the_num ` set vs = set vs"
      by (rule map_inverse) (use that in \<open>simp add: list_all_iff num_the_num\<close>)
    then show ?thesis by simp
  qed
  have c: "set (map Flag (sort (map the_flag vs))) = set vs" if "list_all is_flag vs"
  proof -
    have "Flag ` the_flag ` set vs = set vs"
      by (rule map_inverse) (use that in \<open>simp add: list_all_iff flag_the_flag\<close>)
    then show ?thesis by simp
  qed
  have e: "set (map of_fields (sort (map stamp_fields vs))) = set vs" if "list_all is_stamp vs"
  proof -
    have "of_fields ` stamp_fields ` set vs = set vs"
      by (rule map_inverse) (use that in \<open>simp add: list_all_iff stamp_of_fields\<close>)
    then show ?thesis by simp
  qed
  show ?thesis
    by (rule sort_values_cases) (simp_all only: a b c e set_mixed)
qed

lemma distinct_map_inverse:
  assumes "distinct vs" and "\<And>x. x \<in> set vs \<Longrightarrow> g (f x) = x"
  shows "distinct (map f vs)" and "inj_on g (f ` set vs)"
proof -
  have "inj_on f (set vs)"
    by (rule inj_on_inverseI[where g=g]) (rule assms(2))
  with assms(1) show "distinct (map f vs)"
    by (simp add: distinct_map)
  show "inj_on g (f ` set vs)"
  proof (rule inj_onI)
    fix a b assume "a \<in> f ` set vs" "b \<in> f ` set vs" "g a = g b"
    then obtain x y where "x \<in> set vs" "y \<in> set vs" "a = f x" "b = f y" by blast
    with \<open>g a = g b\<close> assms(2) show "a = b" by metis
  qed
qed

lemma distinct_sorted_inverse:
  assumes "distinct vs" and "\<And>x. x \<in> set vs \<Longrightarrow> g (f x) = x"
  shows "distinct (map g (sort (map f vs)))"
proof -
  have "distinct (map f vs)"
    using assms by (rule distinct_map_inverse(1))
  moreover have "inj_on g (f ` set vs)"
    using assms by (rule distinct_map_inverse(2))
  ultimately
  show ?thesis
    by (simp add: distinct_map)
qed

lemma distinct_sort_values: "distinct vs \<Longrightarrow> distinct (sort_values vs)"
proof -
  assume d: "distinct vs"
  have a: "distinct (map Str (sort (map the_str vs)))" if "list_all is_str vs"
    by (rule distinct_sorted_inverse[OF d]) (use that in \<open>simp add: list_all_iff str_the_str\<close>)
  have b: "distinct (map Num (sort (map the_num vs)))" if "list_all is_num vs"
    by (rule distinct_sorted_inverse[OF d]) (use that in \<open>simp add: list_all_iff num_the_num\<close>)
  have c: "distinct (map Flag (sort (map the_flag vs)))" if "list_all is_flag vs"
    by (rule distinct_sorted_inverse[OF d]) (use that in \<open>simp add: list_all_iff flag_the_flag\<close>)
  have e: "distinct (map of_fields (sort (map stamp_fields vs)))" if "list_all is_stamp vs"
    by (rule distinct_sorted_inverse[OF d]) (use that in \<open>simp add: list_all_iff stamp_of_fields\<close>)
  have m: "distinct (sort_key number_of (filter (\<lambda>c. \<not> is_str c) vs)
        @ map Str (sort (map the_str (filter is_str vs))))"
  proof -
    have "distinct (filter is_str vs)" using d by simp
    then have 1: "distinct (map Str (sort (map the_str (filter is_str vs))))"
      by (rule distinct_sorted_inverse) (simp add: str_the_str)
    have 2: "distinct (sort_key number_of (filter (\<lambda>c. \<not> is_str c) vs))"
      using d by simp
    have "set (sort_key number_of (filter (\<lambda>c. \<not> is_str c) vs))
          \<inter> set (map Str (sort (map the_str (filter is_str vs)))) = {}"
      by auto
    with 1 2 show ?thesis
      by (simp only: distinct_append)
  qed
  show ?thesis
    by (rule sort_values_cases) (simp_all only: a b c e m d)
qed

lemma set_levels: "set (levels xs) = set xs - {Null}"
  by (auto simp: levels_def set_sort_values set_uniq present_def isna_def)

lemma distinct_levels: "distinct (levels xs)"
  by (simp add: levels_def distinct_sort_values distinct_uniq)

lemma count_distinct: "distinct vs \<Longrightarrow> length (filter (\<lambda>v. x = v) vs) = (if x \<in> set vs then 1 else 0)"
  by (induction vs) auto

lemma dummies_row:
  assumes "i < length xs"
  shows "length (filter (\<lambda>(n, col). col ! i = Flag True) (dummies L pre xs)) = 1"
proof -
  let ?x = "xs ! i"
  have "filter (\<lambda>(n, col). col ! i = Flag True)
          (map (\<lambda>v. (pre @ ''_'' @ level_name L v, map (\<lambda>c. Flag (c = v)) xs)) (levels xs))
        = map (\<lambda>v. (pre @ ''_'' @ level_name L v, map (\<lambda>c. Flag (c = v)) xs))
            (filter (\<lambda>v. ?x = v) (levels xs))"
    using assms by (simp add: filter_map o_def)
  then have "length (filter (\<lambda>(n, col). col ! i = Flag True)
          (map (\<lambda>v. (pre @ ''_'' @ level_name L v, map (\<lambda>c. Flag (c = v)) xs)) (levels xs)))
        = (if ?x \<in> set (levels xs) then 1 else 0)"
    by (simp add: count_distinct distinct_levels)
  moreover have "?x \<in> set (levels xs) \<longleftrightarrow> ?x \<noteq> Null"
    using assms by (simp add: set_levels)
  ultimately show ?thesis
    using assms by (simp add: dummies_def isna_def)
qed

text \<open>
  Claim C1: when the one-hot encoding succeeds, each encoded column \<open>c\<close> has a block of
  indicator columns in the result, one per distinct value that is not missing and one for
  missing values; in every row exactly one indicator of the block is true, and the
  indicator for missing values is the true one exactly when the value was missing.
\<close>

theorem one_hot_exactly_one:
  assumes "get_dummies L cs t = Inr t'" and "c \<in> set cs" and "getcol t c = Some xs"
    and "i < length xs"
  shows "(\<exists>before after. columns t' = before @ dummies L c xs @ after)
       \<and> length (dummies L c xs) = card (set xs - {Null}) + 1
       \<and> length (filter (\<lambda>(n, col). col ! i = Flag True) (dummies L c xs)) = 1
       \<and> (snd (last (dummies L c xs)) ! i = Flag True \<longleftrightarrow> isna (xs ! i))"
proof -
  let ?f = "\<lambda>c. case getcol t c of None \<Rightarrow> [] | Some xs \<Rightarrow> dummies L c xs"
  from assms(2) obtain as bs where cs: "cs = as @ c # bs"
    by (auto dest: split_list)
  have "concat (map ?f cs) = concat (map ?f as) @ dummies L c xs @ concat (map ?f bs)"
    using assms(3) by (simp add: cs)
  moreover have "columns t' = filter (\<lambda>(n, xs). n \<notin> set cs) (columns t) @ concat (map ?f cs)"
    using assms(1) by (auto simp: get_dummies_def split: if_splits)
  ultimately have "columns t' = (filter (\<lambda>(n, xs). n \<notin> set cs) (columns t) @ concat (map ?f as))
                     @ dummies L c xs @ concat (map ?f bs)"
    by simp
  then have 1: "\<exists>before after. columns t' = before @ dummies L c xs @ after"
    by blast
  have 2: "length (dummies L c xs) = card (set xs - {Null}) + 1"
    using distinct_card[OF distinct_levels, of xs] by (simp add: dummies_def set_levels)
  have 3: "snd (last (dummies L c xs)) ! i = Flag True \<longleftrightarrow> isna (xs ! i)"
    using assms(4) by (simp add: dummies_def)
  show ?thesis
    using 1 2 3 dummies_row[OF assms(4)] by blast
qed

theorem one_hot_exactly_one_witness:
  "\<exists>t'. get_dummies plain_lib categorical_cols tracks = Inr t'
      \<and> ''Sex'' \<in> set categorical_cols
      \<and> getcol tracks ''Sex'' = Some [Str ''F'', Null, Str ''F'']
      \<and> (1::nat) < length [Str ''F'', Null, Str ''F'']
      \<and> (\<exists>before after. columns t' = before @ dummies plain_lib ''Sex'' [Str ''F'', Null, Str ''F''] @ after)
      \<and> dummies plain_lib ''Sex'' [Str ''F'', Null, Str ''F'']
          = [(''Sex_F'', [Flag True, Flag False, Flag True]),
             (''Sex_nan'', [Flag False, Flag True, Flag False])]
      \<and> length (filter (\<lambda>(n, col). col ! 1 = Flag True)
            (dummies plain_lib ''Sex'' [Str ''F'', Null, Str ''F''])) = 1"
proof -
  obtain t' where h1: "get_dummies plain_lib categorical_cols tracks = Inr t'"
    by (simp add: get_dummies_def categorical_cols_def tracks_def frame_defs)
  have h2: "''Sex'' \<in> set categorical_cols"
    by (simp add: categorical_cols_def)
  have h3: "getcol tracks ''Sex'' = Some [Str ''F'', Null, Str ''F'']"
    by (simp add: tracks_def getcol_def)
  have h4: "(1::nat) < length [Str ''F'', Null, Str ''F'']"
    by simp
  have d: "dummies plain_lib ''Sex'' [Str ''F'', Null, Str ''F'']
          = [(''Sex_F'', [Flag True, Flag False, Flag True]),
             (''Sex_nan'', [Flag False, Flag True, Flag False])]"
    by (simp add: dummies_def levels_def present_def uniq_def sort_values_def level_name_def isna_def)
  show ?thesis
    using h1 h2 h3 h4 d one_hot_exactly_one[OF h1 h2 h3 h4] by simp
qed

subsection \<open>Mode fill\<close>

lemma and_then_Inr: "and_then r f = Inr y \<longleftrightarrow> (\<exists>x. r = Inr x \<and> f x = Inr y)"
  by (cases r) (simp_all add: and_then_def)

lemma foldr_max_ge: "x \<in> set ns \<Longrightarrow> x \<le> foldr max ns (0::nat)"
  by (induction ns) auto

lemma foldr_max_mem: "ns \<noteq> [] \<Longrightarrow> foldr max ns (0::nat) \<in> set ns"
proof (induction ns)
  case Nil
  then show ?case by simp
next
  case (Cons n ns)
  show ?case
  proof (cases "ns = []")
    case True
    then show ?thesis by simp
  next
    case False
    with Cons have m: "foldr max ns 0 \<in> set ns" by simp
    have "max n (foldr max ns 0) = n \<or> max n (foldr max ns 0) = foldr max ns 0"
      by (rule max_def[of n "foldr max ns 0", THEN ssubst]) simp
    with m show ?thesis by auto
  qed
qed

lemma sort_nonempty: "x \<in> set l \<Longrightarrow> sort l \<noteq> []"
proof
  assume x: "x \<in> set l" and e: "sort l = []"
  have "length (sort l) = length l" by simp
  with e have "l = []" by simp
  with x show False by simp
qed

lemma count_present: "\<not> isna v \<Longrightarrow> count_list (present xs) v = count_list xs v"
  by (induction xs) (auto simp: present_def isna_def)

lemma set_present: "set (present xs) = {x \<in> set xs. \<not> isna x}"
  by (auto simp: present_def)

lemma top_count_ge: "v \<in> set xs \<Longrightarrow> \<not> isna v \<Longrightarrow> count_list xs v \<le> top_count xs"
proof -
  assume "v \<in> set xs" "\<not> isna v"
  then have "count_list (present xs) v \<in> set (map (count_list (present xs)) (uniq (present xs)))"
    by (simp add: set_uniq set_present)
  then have "count_list (present xs) v \<le> top_count xs"
    unfolding top_count_def by (rule foldr_max_ge)
  with \<open>\<not> isna v\<close> show ?thesis by (simp add: count_present)
qed

lemma set_most_frequent:
  "set (most_frequent xs) = {v \<in> set xs. \<not> isna v \<and> count_list xs v = top_count xs}"
  by (auto simp: most_frequent_def set_uniq set_present count_present)

lemma most_frequent_nonempty:
  assumes "list_ex (\<lambda>x. \<not> isna x) xs"
  shows "most_frequent xs \<noteq> []"
proof -
  from assms obtain x where "x \<in> set xs" "\<not> isna x"
    by (auto simp: list_ex_iff)
  then have "x \<in> set (uniq (present xs))"
    by (simp add: set_uniq set_present)
  then have "uniq (present xs) \<noteq> []"
    by auto
  then have "map (count_list (present xs)) (uniq (present xs)) \<noteq> []" by simp
  then have "top_count xs \<in> set (map (count_list (present xs)) (uniq (present xs)))"
    unfolding top_count_def by (rule foldr_max_mem)
  then obtain u where "u \<in> set (uniq (present xs))" "count_list (present xs) u = top_count xs"
    by auto
  then have "u \<in> set (most_frequent xs)"
    by (simp add: most_frequent_def)
  then show ?thesis by auto
qed

lemma hd_sort_le: "x \<in> set l \<Longrightarrow> hd (sort l) \<le> (x::'a::linorder)"
proof -
  assume x: "x \<in> set l"
  then have ne: "sort l \<noteq> []" by (rule sort_nonempty)
  then obtain y ys where s: "sort l = y # ys" by (cases "sort l") auto
  have "sorted (y # ys)" using sorted_sort[of l] by (simp add: s)
  moreover have "set (sort l) = set l" by simp
  then have "x \<in> set (y # ys)" using x by (simp only: s)
  ultimately show ?thesis by (auto simp: s)
qed

lemma set_mode_values: "set (mode_values xs) = set (most_frequent xs)"
  by (simp add: mode_values_def set_sort_values)

lemma mode_values_nonempty:
  assumes "list_ex (\<lambda>x. \<not> isna x) xs"
  shows "mode_values xs \<noteq> []"
proof
  assume "mode_values xs = []"
  then have "set (most_frequent xs) = {}"
    using set_mode_values[of xs] by simp
  then show False
    using most_frequent_nonempty[OF assms] by simp
qed

lemma hd_mode_values_mem:
  assumes "list_ex (\<lambda>x. \<not> isna x) xs"
  shows "hd (mode_values xs) \<in> set (most_frequent xs)"
proof -
  have "hd (mode_values xs) \<in> set (mode_values xs)"
    using mode_values_nonempty[OF assms] by (rule hd_in_set)
  then show ?thesis by (simp only: set_mode_values)
qed

lemma hd_mode_values_str:
  assumes "list_all is_str (most_frequent xs)" and "v \<in> set (most_frequent xs)"
  shows "is_str (hd (mode_values xs)) \<and> the_str (hd (mode_values xs)) \<le> the_str v"
proof -
  have "the_str v \<in> set (map the_str (most_frequent xs))"
    using assms(2) by simp
  then have ne: "sort (map the_str (most_frequent xs)) \<noteq> []"
    by (rule sort_nonempty)
  have "hd (mode_values xs) = Str (hd (sort (map the_str (most_frequent xs))))"
    using assms(1) ne by (simp add: mode_values_def sort_values_def hd_map)
  moreover have "hd (sort (map the_str (most_frequent xs))) \<le> the_str v"
    using assms(2) by (intro hd_sort_le) simp
  ultimately show ?thesis by simp
qed

lemma hd_mode_values_num:
  assumes "list_all is_num (most_frequent xs)" and "v \<in> set (most_frequent xs)"
  shows "is_num (hd (mode_values xs)) \<and> the_num (hd (mode_values xs)) \<le> the_num v"
proof -
  have "the_num v \<in> set (map the_num (most_frequent xs))"
    using assms(2) by simp
  then have ne: "sort (map the_num (most_frequent xs)) \<noteq> []"
    by (rule sort_nonempty)
  have nstr: "\<not> list_all is_str (most_frequent xs)"
  proof
    assume "list_all is_str (most_frequent xs)"
    with assms have "is_str v" "is_num v" by (auto simp: list_all_iff)
    then show False by (cases v) simp_all
  qed
  have "hd (mode_values xs) = Num (hd (sort (map the_num (most_frequent xs))))"
    using assms(1) ne nstr by (simp add: mode_values_def sort_values_def hd_map)
  moreover have "hd (sort (map the_num (most_frequent xs))) \<le> the_num v"
    using assms(2) by (intro hd_sort_le) simp
  ultimately show ?thesis by simp
qed

lemma fillna_id: "\<not> list_ex isna xs \<Longrightarrow> fillna m xs = xs"
  by (induction xs) (auto simp: fillna_def)

lemma fillna_no_nulls: "\<not> isna m \<Longrightarrow> \<not> list_ex isna (fillna m xs)"
  by (induction xs) (auto simp: fillna_def)

lemma fill_mode_getcol:
  assumes "fill_mode c t = Inr t1"
  shows "getcol t1 d = (if d = c then map_option (\<lambda>xs. fillna (hd (mode_values xs)) xs) (getcol t c)
                        else getcol t d)"
proof (cases "getcol t c")
  case None
  with assms show ?thesis by (auto simp: fill_mode_def)
next
  case (Some xs)
  show ?thesis
  proof (cases "list_ex isna xs")
    case False
    with assms Some show ?thesis by (auto simp: fill_mode_def fillna_id)
  next
    case True
    with assms Some show ?thesis
      by (cases "mode_values xs") (auto simp: fill_mode_def getcol_setcol)
  qed
qed

lemma run_fill_mode_getcol:
  "run_steps (map fill_mode cs) t = Inr t' \<Longrightarrow> distinct cs \<Longrightarrow>
   getcol t' d = (if d \<in> set cs then map_option (\<lambda>xs. fillna (hd (mode_values xs)) xs) (getcol t d)
                  else getcol t d)"
proof (induction cs arbitrary: t)
  case Nil
  then show ?case by simp
next
  case (Cons c cs)
  from Cons.prems(1) obtain t1 where t1: "fill_mode c t = Inr t1"
    and rest: "run_steps (map fill_mode cs) t1 = Inr t'"
    by (simp add: and_then_Inr) blast
  have d: "distinct cs" "c \<notin> set cs" using Cons.prems(2) by auto
  have "getcol t' d = (if d \<in> set cs
          then map_option (\<lambda>xs. fillna (hd (mode_values xs)) xs) (getcol t1 d) else getcol t1 d)"
    by (rule Cons.IH[OF rest d(1)])
  moreover have "getcol t1 d = (if d = c
          then map_option (\<lambda>xs. fillna (hd (mode_values xs)) xs) (getcol t c) else getcol t d)"
    by (rule fill_mode_getcol[OF t1])
  ultimately show ?case
    using d(2) by (cases "d = c") simp_all
qed

lemma fill_mode_succeeds:
  assumes "getcol t c = Some xs" and "list_ex (\<lambda>x. \<not> isna x) xs"
  shows "\<exists>t1. fill_mode c t = Inr t1"
  using assms mode_values_nonempty[OF assms(2)]
  by (cases "mode_values xs") (auto simp: fill_mode_def)

lemmas mode_defs = mode_values_def most_frequent_def top_count_def present_def uniq_def sort_values_def fillna_def

text \<open>
  Claim C4 says that ties between most frequent values are broken by the value
  encountered first. In the column \<open>b, a, missing\<close> both values occur once and \<open>b\<close>
  comes first, but the missing value is filled with \<open>a\<close>: the modes are sorted before
  the first is taken.
\<close>

theorem mode_tie_first_encountered_counterexample:
  "impute_categorical \<lparr>nrows = 3, columns = [(''Sex'', [Str ''b'', Str ''a'', Null])]\<rparr>
     = Inr \<lparr>nrows = 3, columns = [(''Sex'', [Str ''b'', Str ''a'', Str ''a''])]\<rparr>
   \<and> count_list [Str ''b'', Str ''a'', Null] (Str ''b'') = 1
   \<and> count_list [Str ''b'', Str ''a'', Null] (Str ''a'') = 1
   \<and> hd (most_frequent [Str ''b'', Str ''a'', Null]) = Str ''b''"
  by (simp add: impute_categorical_def categorical_cols_def fill_mode_def frame_defs mode_defs)

text \<open>
  Claim C4, amended: when the mode fill completes, a categorical column that is present
  and has a value that is not missing has no missing value afterwards; every cell that
  was missing holds a most frequent value of the column and every other cell is
  unchanged; among the most frequent values the smallest is taken when the values of the
  column are all strings or all numbers.
\<close>

theorem mode_fill_no_nulls:
  assumes "impute_categorical t = Inr t'" and "c \<in> set categorical_cols"
    and "getcol t c = Some xs" and "list_ex (\<lambda>x. \<not> isna x) xs"
  shows "\<exists>m ys. m = hd (mode_values xs) \<and> getcol t' c = Some ys
       \<and> length ys = length xs \<and> \<not> list_ex isna ys
       \<and> (\<forall>i<length xs. ys ! i = (if isna (xs ! i) then m else xs ! i))
       \<and> m \<in> set xs \<and> \<not> isna m
       \<and> (\<forall>v\<in>set xs. \<not> isna v \<longrightarrow> count_list xs v \<le> count_list xs m)
       \<and> (list_all is_str (present xs) \<longrightarrow>
            (\<forall>v\<in>set xs. \<not> isna v \<and> count_list xs v = count_list xs m \<longrightarrow> the_str m \<le> the_str v))
       \<and> (list_all is_num (present xs) \<longrightarrow>
            (\<forall>v\<in>set xs. \<not> isna v \<and> count_list xs v = count_list xs m \<longrightarrow> the_num m \<le> the_num v))"
proof -
  let ?m = "hd (mode_values xs)"
  let ?ys = "fillna ?m xs"
  have mf: "?m \<in> set (most_frequent xs)"
    by (rule hd_mode_values_mem[OF assms(4)])
  then have m: "?m \<in> set xs" "\<not> isna ?m" "count_list xs ?m = top_count xs"
    by (simp_all add: set_most_frequent)
  have dist: "distinct categorical_cols"
    by (simp add: categorical_cols_def)
  have "getcol t' c = Some ?ys"
    using run_fill_mode_getcol[OF assms(1)[unfolded impute_categorical_def] dist, of c] assms(2,3)
    by simp
  moreover have "length ?ys = length xs"
    by (simp add: fillna_def)
  moreover have "\<not> list_ex isna ?ys"
    by (rule fillna_no_nulls[OF m(2)])
  moreover have "\<forall>i<length xs. ?ys ! i = (if isna (xs ! i) then ?m else xs ! i)"
    by (simp add: fillna_def)
  moreover have "\<forall>v\<in>set xs. \<not> isna v \<longrightarrow> count_list xs v \<le> count_list xs ?m"
    using top_count_ge[of _ xs] m(3) by simp
  moreover have "list_all is_str (present xs) \<longrightarrow>
            (\<forall>v\<in>set xs. \<not> isna v \<and> count_list xs v = count_list xs ?m \<longrightarrow> the_str ?m \<le> the_str v)"
  proof (intro impI ballI)
    fix v
    assume a: "list_all is_str (present xs)" and v: "v \<in> set xs"
      and c: "\<not> isna v \<and> count_list xs v = count_list xs ?m"
    from a have "list_all is_str (most_frequent xs)"
      by (auto simp: list_all_iff set_most_frequent set_present)
    moreover from v c m(3) have "v \<in> set (most_frequent xs)"
      by (simp add: set_most_frequent)
    ultimately show "the_str ?m \<le> the_str v"
      using hd_mode_values_str by blast
  qed
  moreover have "list_all is_num (present xs) \<longrightarrow>
            (\<forall>v\<in>set xs. \<not> isna v \<and> count_list xs v = count_list xs ?m \<longrightarrow> the_num ?m \<le> the_num v)"
  proof (intro impI ballI)
    fix v
    assume a: "list_all is_num (present xs)" and v: "v \<in> set xs"
      and c: "\<not> isna v \<and> count_list xs v = count_list xs ?m"
    from a have "list_all is_num (most_frequent xs)"
      by (auto simp: list_all_iff set_most_frequent set_present)
    moreover from v c m(3) have "v \<in> set (most_frequent xs)"
      by (simp add: set_most_frequent)
    ultimately show "the_num ?m \<le> the_num v"
      using hd_mode_values_num by blast
  qed
  ultimately show ?thesis
    using m(1,2) by blast
qed

theorem mode_fill_no_nulls_witness:
  "\<exists>t'. impute_categorical tracks = Inr t'
      \<and> ''Sex'' \<in> set categorical_cols
      \<and> getcol tracks ''Sex'' = Some [Str ''F'', Null, Str ''F'']
      \<and> list_ex (\<lambda>x. \<not> isna x) [Str ''F'', Null, Str ''F'']
      \<and> hd (mode_values [Str ''F'', Null, Str ''F'']) = Str ''F''
      \<and> (\<exists>ys. getcol t' ''Sex'' = Some ys \<and> \<not> list_ex isna ys \<and> ys ! 1 = Str ''F'')"
proof -
  obtain t' where h1: "impute_categorical tracks = Inr t'"
    by (simp add: impute_categorical_def categorical_cols_def fill_mode_def tracks_def
        frame_defs mode_defs)
  have h2: "''Sex'' \<in> set categorical_cols"
    by (simp add: categorical_cols_def)
  have h3: "getcol tracks ''Sex'' = Some [Str ''F'', Null, Str ''F'']"
    by (simp add: tracks_def getcol_def)
  have h4: "list_ex (\<lambda>x. \<not> isna x) [Str ''F'', Null, Str ''F'']"
    by (simp add: isna_def)
  have m: "hd (mode_values [Str ''F'', Null, Str ''F'']) = Str ''F''"
    by (simp add: mode_defs isna_def)
  from mode_fill_no_nulls[OF h1 h2 h3 h4]
  obtain ys where "getcol t' ''Sex'' = Some ys" "\<not> list_ex isna ys"
    "\<forall>i<length [Str ''F'', Null, Str ''F'']. ys ! i
       = (if isna ([Str ''F'', Null, Str ''F''] ! i) then hd (mode_values [Str ''F'', Null, Str ''F''])
          else [Str ''F'', Null, Str ''F''] ! i)"
    by blast
  then have "getcol t' ''Sex'' = Some ys \<and> \<not> list_ex isna ys \<and> ys ! 1 = Str ''F''"
    by (simp add: m isna_def)
  then show ?thesis
    using h1 h2 h3 h4 m by blast
qed

subsection \<open>Nearest-neighbour imputation\<close>

lemma collect_Inr:
  "collect rs = Inr ys \<Longrightarrow> length ys = length rs \<and> (\<forall>i<length rs. rs ! i = Inr (ys ! i))"
proof (induction rs arbitrary: ys)
  case Nil
  then show ?case by simp
next
  case (Cons r rs)
  from Cons.prems obtain x xs where r: "r = Inr x" and xs: "collect rs = Inr xs" and ys: "ys = x # xs"
    by (auto split: sum.splits)
  from Cons.IH[OF xs] have "length xs = length rs" "\<forall>i<length rs. rs ! i = Inr (xs ! i)"
    by simp_all
  then show ?case
    by (auto simp: r ys nth_Cons split: nat.splits)
qed

lemma collect_map_Inr:
  assumes "collect (map f xs) = Inr ys"
  shows "length ys = length xs" and "i < length xs \<Longrightarrow> f (xs ! i) = Inr (ys ! i)"
  using collect_Inr[OF assms] by auto

lemma collect_succeeds:
  "list_all (\<lambda>r. \<exists>x. r = Inr x) rs \<Longrightarrow> \<exists>ys. collect rs = Inr ys"
  by (induction rs) auto

lemma float_of_cell_present:
  "float_of_cell c = Inr v \<Longrightarrow> \<not> isna c \<Longrightarrow> \<exists>x. c = Num x \<and> v = Some x"
  by (cases c) (simp_all add: isna_def)

text \<open>
  Claim C5: when the imputation of the coordinates completes, a row that had both its
  latitude and its longitude has the same two values afterwards.
\<close>

theorem knn_keeps_present_coordinates:
  assumes "impute_positions t = Inr t'"
    and "getcol t ''Latitude'' = Some las" and "getcol t ''Longitude'' = Some los"
    and "i < length las" and "i < length los"
    and "\<not> isna (las ! i)" and "\<not> isna (los ! i)"
  shows "\<exists>las' los'. getcol t' ''Latitude'' = Some las' \<and> getcol t' ''Longitude'' = Some los'
           \<and> las' ! i = las ! i \<and> los' ! i = los ! i"
proof (cases "list_ex isna las \<or> list_ex isna los")
  case False
  with assms(1-3) have "t' = t"
    by (simp add: impute_positions_def)
  with assms(2,3) show ?thesis by simp
next
  case True
  with assms(1-3) obtain xs ys ps where xs: "collect (map float_of_cell las) = Inr xs"
    and ys: "collect (map float_of_cell los) = Inr ys"
    and ps: "knn_impute 5 (zip xs ys) = Inr ps"
    and t': "t' = setcol ''Longitude'' (map (\<lambda>p. Num (snd p)) ps)
                   (setcol ''Latitude'' (map (\<lambda>p. Num (fst p)) ps) t)"
    by (auto simp: impute_positions_def split: sum.splits)
  let ?X = "zip xs ys"
  from ps have ps_eq: "ps = map (\<lambda>r. (knn_fill 5 fst ?X r, knn_fill 5 snd ?X r)) ?X"
    by (auto simp: knn_impute_def split: if_splits)
  have lx: "length xs = length las" and ly: "length ys = length los"
    using collect_map_Inr(1)[OF xs] collect_map_Inr(1)[OF ys] by simp_all
  from collect_map_Inr(2)[OF xs assms(4)] assms(6)
  obtain x where x: "las ! i = Num x" "xs ! i = Some x"
    by (auto dest: float_of_cell_present)
  from collect_map_Inr(2)[OF ys assms(5)] assms(7)
  obtain y where y: "los ! i = Num y" "ys ! i = Some y"
    by (auto dest: float_of_cell_present)
  have i: "i < length ?X" using assms(4,5) lx ly by simp
  then have "ps ! i = (x, y)"
    using x(2) y(2) by (simp add: ps_eq knn_fill_def)
  moreover have "i < length ps" using i by (simp add: ps_eq)
  ultimately have "map (\<lambda>p. Num (fst p)) ps ! i = las ! i" "map (\<lambda>p. Num (snd p)) ps ! i = los ! i"
    using x(1) y(1) by simp_all
  then show ?thesis
    by (simp add: t' getcol_setcol)
qed

lemmas knn_defs = impute_positions_def knn_impute_def knn_fill_def knn_value_def near_donors_def
  donors_def sq_dist_def sq_diff_def mean_def List.map_filter_def

theorem knn_keeps_present_coordinates_witness:
  "\<exists>t'. impute_positions tracks = Inr t'
     \<and> getcol tracks ''Latitude'' = Some [Num (- 62.21), Null, Num (- 62.21)]
     \<and> getcol tracks ''Longitude'' = Some [Num (- 58.42), Num (- 58.42), Num (- 58.42)]
     \<and> (0::nat) < length [Num (- 62.21), Null, Num (- 62.21)]
     \<and> (0::nat) < length [Num (- 58.42), Num (- 58.42), Num (- 58.42)]
     \<and> \<not> isna ([Num (- 62.21), Null, Num (- 62.21)] ! 0)
     \<and> \<not> isna ([Num (- 58.42), Num (- 58.42), Num (- 58.42)] ! 0)
     \<and> (\<exists>las' los'. getcol t' ''Latitude'' = Some las' \<and> getcol t' ''Longitude'' = Some los'
           \<and> las' ! 0 = Num (- 62.21) \<and> los' ! 0 = Num (- 58.42))
     \<and> getcol t' ''Latitude'' = Some [Num (- 62.21), Num (- 62.21), Num (- 62.21)]"
proof -
  let ?t' = "setcol ''Longitude'' [Num (- 58.42), Num (- 58.42), Num (- 58.42)]
        (setcol ''Latitude'' [Num (- 62.21), Num (- 62.21), Num (- 62.21)] tracks)"
  have h1: "impute_positions tracks = Inr ?t'"
    by (simp add: knn_defs tracks_def getcol_def isna_def)
  have h2: "getcol tracks ''Latitude'' = Some [Num (- 62.21), Null, Num (- 62.21)]"
    by (simp add: tracks_def getcol_def)
  have h3: "getcol tracks ''Longitude'' = Some [Num (- 58.42), Num (- 58.42), Num (- 58.42)]"
    by (simp add: tracks_def getcol_def)
  have h4: "(0::nat) < length [Num (- 62.21), Null, Num (- 62.21)]" by simp
  have h5: "(0::nat) < length [Num (- 58.42), Num (- 58.42), Num (- 58.42)]" by simp
  have h6: "\<not> isna ([Num (- 62.21), Null, Num (- 62.21)] ! 0)" by (simp add: isna_def)
  have h7: "\<not> isna ([Num (- 58.42), Num (- 58.42), Num (- 58.42)] ! 0)" by (simp add: isna_def)
  have r: "getcol ?t' ''Latitude'' = Some [Num (- 62.21), Num (- 62.21), Num (- 62.21)]"
    by (simp add: getcol_setcol)
  show ?thesis
    using knn_keeps_present_coordinates[OF h1 h2 h3 h4 h5 h6 h7] h1 h2 h3 h6 h7 r
    by simp
qed

subsection \<open>Cleaning the trips\<close>

lemma getcol_take_rows: "getcol (take_rows idx t) c = map_option (\<lambda>xs. map (nth xs) idx) (getcol t c)"
proof -
  have "map_of (map (\<lambda>(n, xs). (n, map (nth xs) idx)) cs) c
        = map_option (\<lambda>xs. map (nth xs) idx) (map_of cs c)" for cs :: "(string \<times> cell list) list"
    by (simp add: map_of_map)
  then show ?thesis
    by (simp add: getcol_def take_rows_def)
qed

lemma has_col_take_rows: "has_col (take_rows idx t) c = has_col t c"
  by (simp add: has_col_getcol getcol_take_rows)

lemma nrows_take_rows: "nrows (take_rows idx t) = length idx"
  by (simp add: take_rows_def)

lemma take_rows_take_rows:
  assumes "list_all (\<lambda>j. j < length is) js"
  shows "take_rows js (take_rows is t) = take_rows (map (nth is) js) t"
proof -
  have "map (nth (map (nth xs) is)) js = map (nth xs) (map (nth is) js)" for xs :: "cell list"
    using assms by (simp add: list_all_iff)
  then show ?thesis
    by (simp add: take_rows_def case_prod_unfold)
qed

lemma take_rows_all: "wf_frame t \<Longrightarrow> take_rows [0..<nrows t] t = t"
proof -
  assume "wf_frame t"
  then have "\<forall>p\<in>set (columns t). length (snd p) = nrows t"
    by (auto simp: wf_frame_def list_all_iff)
  then have "\<forall>p\<in>set (columns t). map (nth (snd p)) [0..<nrows t] = snd p"
    by (metis map_nth)
  then have "map (\<lambda>(n, xs). (n, map (nth xs) [0..<nrows t])) (columns t) = columns t"
    by (intro map_idI) (auto simp: case_prod_unfold)
  then show ?thesis by (simp add: take_rows_def)
qed

lemma nth_filter_upt: "map (nth xs) (filter (\<lambda>j. q (xs ! j)) [0..<length xs]) = filter q xs"
proof -
  have "filter q xs = filter q (map (nth xs) [0..<length xs])"
    by (simp add: map_nth)
  also have "\<dots> = map (nth xs) (filter (q \<circ> nth xs) [0..<length xs])"
    by (rule filter_map)
  finally show ?thesis by (simp add: o_def)
qed

lemma where_rows_take_rows:
  assumes "\<And>j. j < length idx \<Longrightarrow> p j = q (idx ! j)"
  shows "where_rows p (take_rows idx t) = take_rows (filter q idx) t"
proof -
  have "filter p [0..<length idx] = filter (\<lambda>j. q (idx ! j)) [0..<length idx]"
    using assms by (intro filter_cong) auto
  moreover have "list_all (\<lambda>j. j < length idx) (filter p [0..<length idx])"
    by (simp add: list_all_iff)
  ultimately show ?thesis
    by (simp add: where_rows_def nrows_take_rows take_rows_take_rows nth_filter_upt)
qed

lemma present_at_take_rows:
  "j < length idx \<Longrightarrow> present_at (take_rows idx t) j c = present_at t (idx ! j) c"
  by (cases "getcol t c") (simp_all add: present_at_def getcol_take_rows)

lemma dropna_take_rows:
  assumes "list_all (has_col t) cs"
  shows "dropna_subset cs (take_rows idx t)
         = Inr (take_rows (filter (\<lambda>i. list_all (present_at t i) cs) idx) t)"
proof -
  have "where_rows (\<lambda>j. list_all (present_at (take_rows idx t) j) cs) (take_rows idx t)
        = take_rows (filter (\<lambda>i. list_all (present_at t i) cs) idx) t"
    by (rule where_rows_take_rows) (simp add: list_all_iff present_at_take_rows)
  moreover have "list_all (has_col (take_rows idx t)) cs"
    using assms by (simp add: list_all_iff has_col_take_rows)
  ultimately show ?thesis
    by (simp add: dropna_subset_def)
qed

lemma gt_zero_cases: "gt_zero c \<noteq> Inl TypeError \<Longrightarrow> \<exists>b. gt_zero c = Inr b"
  by (cases c) auto

lemma keep_positive_take_rows:
  assumes "getcol t c = Some xs" and "list_all (\<lambda>x. gt_zero x \<noteq> Inl TypeError) xs"
    and "list_all (\<lambda>i. i < length xs) idx"
  shows "keep_positive c (take_rows idx t)
         = Inr (take_rows (filter (\<lambda>i. gt_zero (xs ! i) = Inr True) idx) t)"
proof -
  have "list_all (\<lambda>r. \<exists>b. r = Inr b) (map gt_zero (map (nth xs) idx))"
    using assms(2,3) by (auto simp: list_all_iff intro!: gt_zero_cases)
  then obtain keep where keep: "collect (map gt_zero (map (nth xs) idx)) = Inr keep"
    using collect_succeeds by blast
  from collect_map_Inr(2)[OF keep]
  have k: "\<And>j. j < length idx \<Longrightarrow> gt_zero (xs ! (idx ! j)) = Inr (keep ! j)"
    by simp
  have "where_rows (\<lambda>j. keep ! j) (take_rows idx t)
        = take_rows (filter (\<lambda>i. gt_zero (xs ! i) = Inr True) idx) t"
    by (rule where_rows_take_rows) (simp add: k)
  then show ?thesis
    using assms(1) keep by (simp add: keep_positive_def getcol_take_rows)
qed

lemma three_filters:
  assumes A: "\<And>idx. list_all (\<lambda>i. i < n) idx \<Longrightarrow> A (take_rows idx t) = Inr (take_rows (filter pa idx) t)"
    and B: "\<And>idx. list_all (\<lambda>i. i < n) idx \<Longrightarrow> B (take_rows idx t) = Inr (take_rows (filter pb idx) t)"
    and C: "\<And>idx. list_all (\<lambda>i. i < n) idx \<Longrightarrow> C (take_rows idx t) = Inr (take_rows (filter pc idx) t)"
  shows "run_steps [A, B, C] (take_rows [0..<n] t)
         = Inr (take_rows (filter (\<lambda>i. pa i \<and> pb i \<and> pc i) [0..<n]) t)"
proof -
  have r0: "list_all (\<lambda>i. i < n) [0..<n]"
    by (simp add: list_all_iff)
  have r1: "list_all (\<lambda>i. i < n) (filter pa [0..<n])"
    by (simp add: list_all_iff)
  have r2: "list_all (\<lambda>i. i < n) (filter pb (filter pa [0..<n]))"
    by (simp add: list_all_iff)
  have s1: "A (take_rows [0..<n] t) = Inr (take_rows (filter pa [0..<n]) t)"
    by (rule A[OF r0])
  have s2: "B (take_rows (filter pa [0..<n]) t) = Inr (take_rows (filter pb (filter pa [0..<n])) t)"
    by (rule B[OF r1])
  have s3: "C (take_rows (filter pb (filter pa [0..<n])) t)
            = Inr (take_rows (filter pc (filter pb (filter pa [0..<n]))) t)"
    by (rule C[OF r2])
  have "run_steps [A, B, C] (take_rows [0..<n] t)
        = Inr (take_rows (filter pc (filter pb (filter pa [0..<n]))) t)"
    by (simp only: run_steps.simps and_then_def s1 s2 s3 sum.case)
  moreover have "filter pc (filter pb (filter pa [0..<n])) = filter (\<lambda>i. pa i \<and> pb i \<and> pc i) [0..<n]"
    by (simp add: conj_ac)
  ultimately show ?thesis
    by (simp only:)
qed

text \<open>
  Claim C8: on a well-formed trip table that has the two timestamp columns and the two
  numeric columns, \<open>clean_data\<close> returns the rows, in their order, in which both
  timestamps are present and the fare and the distance are greater than 0; every row of
  the result has these properties, and each of the other five orders of the three
  filters gives the same table.
\<close>

theorem clean_data_keeps_conjunction:
  assumes wf: "wf_frame t"
    and ps: "getcol t ''pickup_datetime'' = Some ps"
    and ds: "getcol t ''dropoff_datetime'' = Some ds"
    and fs: "getcol t ''fare_amount'' = Some fs"
    and ts: "getcol t ''trip_distance'' = Some ts"
    and nf: "list_all (\<lambda>x. gt_zero x \<noteq> Inl TypeError) fs"
    and nt: "list_all (\<lambda>x. gt_zero x \<noteq> Inl TypeError) ts"
  shows "\<exists>keep t'.
      keep = filter (\<lambda>i. \<not> isna (ps ! i) \<and> \<not> isna (ds ! i)
                        \<and> gt_zero (fs ! i) = Inr True \<and> gt_zero (ts ! i) = Inr True) [0..<nrows t]
    \<and> t' = take_rows keep t
    \<and> clean_data t = Inr t'
    \<and> getcol t' ''pickup_datetime'' = Some (map (nth ps) keep)
    \<and> getcol t' ''dropoff_datetime'' = Some (map (nth ds) keep)
    \<and> getcol t' ''fare_amount'' = Some (map (nth fs) keep)
    \<and> getcol t' ''trip_distance'' = Some (map (nth ts) keep)
    \<and> list_all (\<lambda>x. \<not> isna x) (map (nth ps) keep)
    \<and> list_all (\<lambda>x. \<not> isna x) (map (nth ds) keep)
    \<and> list_all (\<lambda>x. gt_zero x = Inr True) (map (nth fs) keep)
    \<and> list_all (\<lambda>x. gt_zero x = Inr True) (map (nth ts) keep)
    \<and> run_steps [dropna_subset [''pickup_datetime'', ''dropoff_datetime''],
                  keep_positive ''trip_distance'', keep_positive ''fare_amount''] t = Inr t'
    \<and> run_steps [keep_positive ''fare_amount'',
                  dropna_subset [''pickup_datetime'', ''dropoff_datetime''],
                  keep_positive ''trip_distance''] t = Inr t'
    \<and> run_steps [keep_positive ''fare_amount'', keep_positive ''trip_distance'',
                  dropna_subset [''pickup_datetime'', ''dropoff_datetime'']] t = Inr t'
    \<and> run_steps [keep_positive ''trip_distance'',
                  dropna_subset [''pickup_datetime'', ''dropoff_datetime''],
                  keep_positive ''fare_amount''] t = Inr t'
    \<and> run_steps [keep_positive ''trip_distance'', keep_positive ''fare_amount'',
                  dropna_subset [''pickup_datetime'', ''dropoff_datetime'']] t = Inr t'"
proof -
  let ?n = "nrows t"
  let ?D = "dropna_subset [''pickup_datetime'', ''dropoff_datetime'']"
  let ?F = "keep_positive ''fare_amount''"
  let ?T = "keep_positive ''trip_distance''"
  let ?pd = "\<lambda>i. list_all (present_at t i) [''pickup_datetime'', ''dropoff_datetime'']"
  let ?pf = "\<lambda>i. gt_zero (fs ! i) = Inr True"
  let ?pt = "\<lambda>i. gt_zero (ts ! i) = Inr True"
  let ?keep = "filter (\<lambda>i. \<not> isna (ps ! i) \<and> \<not> isna (ds ! i) \<and> ?pf i \<and> ?pt i) [0..<?n]"
  have len: "length fs = ?n" "length ts = ?n"
    using wf fs ts by (auto simp: wf_frame_def list_all_iff getcol_def dest!: map_of_SomeD)
  have D: "\<And>idx. list_all (\<lambda>i. i < ?n) idx \<Longrightarrow> ?D (take_rows idx t) = Inr (take_rows (filter ?pd idx) t)"
    using ps ds by (intro dropna_take_rows) (simp add: has_col_getcol)
  have F: "\<And>idx. list_all (\<lambda>i. i < ?n) idx \<Longrightarrow> ?F (take_rows idx t) = Inr (take_rows (filter ?pf idx) t)"
    using fs nf len by (intro keep_positive_take_rows) simp_all
  have T: "\<And>idx. list_all (\<lambda>i. i < ?n) idx \<Longrightarrow> ?T (take_rows idx t) = Inr (take_rows (filter ?pt idx) t)"
    using ts nt len by (intro keep_positive_take_rows) simp_all
  have t0: "take_rows [0..<?n] t = t"
    by (rule take_rows_all[OF wf])
  have k1: "filter (\<lambda>i. ?pd i \<and> ?pf i \<and> ?pt i) [0..<?n] = ?keep"
    using ps ds by (simp add: present_at_def)
  have k2: "filter (\<lambda>i. ?pd i \<and> ?pt i \<and> ?pf i) [0..<?n] = ?keep"
    using ps ds by (simp add: present_at_def conj_ac)
  have k3: "filter (\<lambda>i. ?pf i \<and> ?pd i \<and> ?pt i) [0..<?n] = ?keep"
    using ps ds by (simp add: present_at_def conj_ac)
  have k4: "filter (\<lambda>i. ?pf i \<and> ?pt i \<and> ?pd i) [0..<?n] = ?keep"
    using ps ds by (simp add: present_at_def conj_ac)
  have k5: "filter (\<lambda>i. ?pt i \<and> ?pd i \<and> ?pf i) [0..<?n] = ?keep"
    using ps ds by (simp add: present_at_def conj_ac)
  have k6: "filter (\<lambda>i. ?pt i \<and> ?pf i \<and> ?pd i) [0..<?n] = ?keep"
    using ps ds by (simp add: present_at_def conj_ac)
  have o1: "run_steps [?D, ?F, ?T] t = Inr (take_rows ?keep t)"
    using three_filters[where n="nrows t" and t=t and A="?D" and B="?F" and C="?T" and pa="?pd" and pb="?pf" and pc="?pt", OF D F T] by (simp only: t0 k1)
  have o2: "run_steps [?D, ?T, ?F] t = Inr (take_rows ?keep t)"
    using three_filters[where n="nrows t" and t=t and A="?D" and B="?T" and C="?F" and pa="?pd" and pb="?pt" and pc="?pf", OF D T F] by (simp only: t0 k2)
  have o3: "run_steps [?F, ?D, ?T] t = Inr (take_rows ?keep t)"
    using three_filters[where n="nrows t" and t=t and A="?F" and B="?D" and C="?T" and pa="?pf" and pb="?pd" and pc="?pt", OF F D T] by (simp only: t0 k3)
  have o4: "run_steps [?F, ?T, ?D] t = Inr (take_rows ?keep t)"
    using three_filters[where n="nrows t" and t=t and A="?F" and B="?T" and C="?D" and pa="?pf" and pb="?pt" and pc="?pd", OF F T D] by (simp only: t0 k4)
  have o5: "run_steps [?T, ?D, ?F] t = Inr (take_rows ?keep t)"
    using three_filters[where n="nrows t" and t=t and A="?T" and B="?D" and C="?F" and pa="?pt" and pb="?pd" and pc="?pf", OF T D F] by (simp only: t0 k5)
  have o6: "run_steps [?T, ?F, ?D] t = Inr (take_rows ?keep t)"
    using three_filters[where n="nrows t" and t=t and A="?T" and B="?F" and C="?D" and pa="?pt" and pb="?pf" and pc="?pd", OF T F D] by (simp only: t0 k6)
  have c: "clean_data t = Inr (take_rows ?keep t)"
    using o1 by (simp add: clean_data_def)
  have g: "getcol (take_rows ?keep t) ''pickup_datetime'' = Some (map (nth ps) ?keep)"
    "getcol (take_rows ?keep t) ''dropoff_datetime'' = Some (map (nth ds) ?keep)"
    "getcol (take_rows ?keep t) ''fare_amount'' = Some (map (nth fs) ?keep)"
    "getcol (take_rows ?keep t) ''trip_distance'' = Some (map (nth ts) ?keep)"
    using ps ds fs ts by (simp_all add: getcol_take_rows)
  have a: "list_all (\<lambda>x. \<not> isna x) (map (nth ps) ?keep)"
    "list_all (\<lambda>x. \<not> isna x) (map (nth ds) ?keep)"
    "list_all (\<lambda>x. gt_zero x = Inr True) (map (nth fs) ?keep)"
    "list_all (\<lambda>x. gt_zero x = Inr True) (map (nth ts) ?keep)"
    by (simp_all add: list_all_iff)
  show ?thesis
    using c g a o2 o3 o4 o5 o6 by blast
qed

theorem clean_data_keeps_conjunction_witness:
  "wf_frame trips
   \<and> getcol trips ''pickup_datetime''
       = Some [Stamp 2024 1 1 8 0 0, Stamp 2024 1 1 9 0 0, Null, Stamp 2024 1 2 7 0 0]
   \<and> getcol trips ''dropoff_datetime''
       = Some [Stamp 2024 1 1 8 20 0, Stamp 2024 1 1 9 5 0, Stamp 2024 1 1 9 30 0, Stamp 2024 1 2 7 0 0]
   \<and> getcol trips ''fare_amount'' = Some [Num 12.5, Num (- 5), Num 7, Num 3]
   \<and> getcol trips ''trip_distance'' = Some [Num 3.2, Num 1, Num 2, Num 0]
   \<and> list_all (\<lambda>x. gt_zero x \<noteq> Inl TypeError) [Num 12.5, Num (- 5), Num 7, Num 3]
   \<and> list_all (\<lambda>x. gt_zero x \<noteq> Inl TypeError) [Num 3.2, Num 1, Num 2, Num 0]
   \<and> clean_data trips = Inr (take_rows [0] trips)
   \<and> getcol (take_rows [0] trips) ''fare_amount'' = Some [Num 12.5]
   \<and> run_steps [keep_positive ''trip_distance'', keep_positive ''fare_amount'',
                 dropna_subset [''pickup_datetime'', ''dropoff_datetime'']] trips
       = Inr (take_rows [0] trips)"
proof -
  have h1: "wf_frame trips"
    by (simp add: wf_frame_def trips_def)
  have h2: "getcol trips ''pickup_datetime''
       = Some [Stamp 2024 1 1 8 0 0, Stamp 2024 1 1 9 0 0, Null, Stamp 2024 1 2 7 0 0]"
    by (simp add: getcol_def trips_def)
  have h3: "getcol trips ''dropoff_datetime''
       = Some [Stamp 2024 1 1 8 20 0, Stamp 2024 1 1 9 5 0, Stamp 2024 1 1 9 30 0, Stamp 2024 1 2 7 0 0]"
    by (simp add: getcol_def trips_def)
  have h4: "getcol trips ''fare_amount'' = Some [Num 12.5, Num (- 5), Num 7, Num 3]"
    by (simp add: getcol_def trips_def)
  have h5: "getcol trips ''trip_distance'' = Some [Num 3.2, Num 1, Num 2, Num 0]"
    by (simp add: getcol_def trips_def)
  have h6: "list_all (\<lambda>x. gt_zero x \<noteq> Inl TypeError) [Num 12.5, Num (- 5), Num 7, Num 3]"
    by simp
  have h7: "list_all (\<lambda>x. gt_zero x \<noteq> Inl TypeError) [Num 3.2, Num 1, Num 2, Num 0]"
    by simp
  have n: "[0..<nrows trips] = [0, 1, 2, 3]"
    by (simp add: trips_def upt_rec)
  have k: "filter (\<lambda>i. \<not> isna ([Stamp 2024 1 1 8 0 0, Stamp 2024 1 1 9 0 0, Null, Stamp 2024 1 2 7 0 0] ! i)
             \<and> \<not> isna ([Stamp 2024 1 1 8 20 0, Stamp 2024 1 1 9 5 0, Stamp 2024 1 1 9 30 0, Stamp 2024 1 2 7 0 0] ! i)
             \<and> gt_zero ([Num 12.5, Num (- 5), Num 7, Num 3] ! i) = Inr True
             \<and> gt_zero ([Num 3.2, Num 1, Num 2, Num 0] ! i) = Inr True) [0..<nrows trips] = [0]"
    by (simp add: n isna_def)
  from clean_data_keeps_conjunction[OF h1 h2 h3 h4 h5 h6 h7, unfolded k]
  have r: "clean_data trips = Inr (take_rows [0] trips)
     \<and> getcol (take_rows [0] trips) ''fare_amount''
         = Some (map (nth [Num 12.5, Num (- 5), Num 7, Num 3]) [0])
     \<and> run_steps [keep_positive ''trip_distance'', keep_positive ''fare_amount'',
                 dropna_subset [''pickup_datetime'', ''dropoff_datetime'']] trips
       = Inr (take_rows [0] trips)"
    by blast
  have "map (nth [Num 12.5, Num (- 5), Num 7, Num 3]) [0] = [Num 12.5]"
    by simp
  with r h1 h2 h3 h4 h5 h6 h7 show ?thesis
    by (simp only:) 
qed

subsection \<open>Loading\<close>

text \<open>
  Claim C7: a loader given no matching file fails with a not-found error before any
  processing. \<open>load_data\<close> does; \<open>merge_parquet_files\<close> has no such check and fails
  in \<open>pd.concat\<close> with \<open>ValueError\<close>.
\<close>

theorem loaders_without_files:
  "load_data [] = Inl FileNotFoundError \<and> merge_parquet_files [] = Inl ValueError"
  by (simp add: load_data_def merge_parquet_files_def concat_frames_def and_then_def)

subsection \<open>Running the pipeline on the example\<close>

lemmas date_defs = parse_dmy_def day_field_def month_field_def year_field_def is_digit_def
  digits_val_def digit_val_def days_in_month_def leap_year_def in_ns_bounds_def

lemmas lib_defs = plain_lib_def decimal_def decimal_unsigned_def is_digit_def digits_val_def
  digit_val_def great_circle_km_def COLONY_LATITUDE_def COLONY_LONGITUDE_def

lemmas time_defs = convert_date_def c_int_def split_time_def split_width_def float_column_def
  float_part_def upt_rec combine_timestamp_def make_timestamp_def py_int_def drop_time_parts_def

lemmas step_defs = convert_position_def fill_mode_def add_distance_def distance_cell_def
  add_time_features_def season_mapping_def Fruehling_def get_dummies_def dummies_def levels_def
  level_name_def scale_column_def standard_scale_def position_cols_def categorical_cols_def
  numeric_cols_def

lemmas pipeline_defs = process_data_def process_steps_def process_stmts_def timestamp_stmts_def

lemma process_tracks: "process_data plain_lib tracks = Inr processed_tracks"
  by (simp add: pipeline_defs tracks_def processed_tracks_def
      date_defs frame_defs time_defs lib_defs step_defs mode_defs knn_defs)


subsection \<open>Row count\<close>

lemma nrows_setcol: "nrows (setcol c v t) = nrows t"
  by (simp add: setcol_def)

lemma wf_setcol: "wf_frame t \<Longrightarrow> length v = nrows t \<Longrightarrow> wf_frame (setcol c v t)"
  by (auto simp: wf_frame_def setcol_def list_all_iff split: if_splits)

lemma wf_getcol: "wf_frame t \<Longrightarrow> getcol t c = Some xs \<Longrightarrow> length xs = nrows t"
  by (auto simp: wf_frame_def list_all_iff getcol_def dest!: map_of_SomeD)

lemma wf_dropcols: "wf_frame t \<Longrightarrow> wf_frame (dropcols cs t)"
  by (auto simp: wf_frame_def dropcols_def list_all_iff)

lemma nrows_dropcols: "nrows (dropcols cs t) = nrows t"
  by (simp add: dropcols_def)

lemma rows_convert_date:
  "convert_date L t = Inr t' \<Longrightarrow> nrows t' = nrows t \<and> (wf_frame t \<longrightarrow> wf_frame t')"
  by (auto simp: convert_date_def nrows_setcol wf_setcol wf_getcol split: option.splits)

lemma float_column_length: "float_column L xs k = Inr ys \<Longrightarrow> length ys = length xs"
  unfolding float_column_def by (drule collect_map_Inr(1)) simp

lemma rows_split_time:
  assumes "split_time L t = Inr t'"
  shows "nrows t' = nrows t \<and> (wf_frame t \<longrightarrow> wf_frame t')"
proof -
  from assms obtain xs hs ms ss where xs: "getcol t ''TimeGMT'' = Some xs"
    and c: "collect (map (float_column L xs) [0..<split_width xs]) = Inr [hs, ms, ss]"
    and t': "t' = setcol ''second'' ss (setcol ''minute'' ms (setcol ''hour'' hs t))"
    by (auto simp: split_time_def split: option.splits if_splits sum.splits list.splits)
  from collect_Inr[OF c] have w: "split_width xs = 3" and
    f: "\<forall>i<3. float_column L xs ([0..<split_width xs] ! i) = Inr ([hs, ms, ss] ! i)"
    by auto
  have "float_column L xs 0 = Inr hs" "float_column L xs 1 = Inr ms" "float_column L xs 2 = Inr ss"
    using f[rule_format, of 0] f[rule_format, of 1] f[rule_format, of 2] w
    by (simp_all add: upt_rec numeral_2_eq_2)
  then have "length hs = length xs" "length ms = length xs" "length ss = length xs"
    by (auto dest: float_column_length)
  then show ?thesis
    using xs by (auto simp: t' nrows_setcol wf_setcol wf_getcol)
qed

lemma rows_combine_timestamp:
  assumes "combine_timestamp t = Inr t'"
  shows "nrows t' = nrows t \<and> (wf_frame t \<longrightarrow> wf_frame t')"
proof -
  from assms obtain f ts where c: "collect (map f [0..<nrows t]) = Inr ts"
    and t': "t' = setcol ''Timestamp'' ts t"
    by (auto simp: combine_timestamp_def split: option.splits sum.splits)
  from collect_map_Inr(1)[OF c] have "length ts = nrows t" by simp
  then show ?thesis
    by (simp add: t' nrows_setcol wf_setcol)
qed

lemma rows_drop_time_parts:
  "drop_time_parts t = Inr t' \<Longrightarrow> nrows t' = nrows t \<and> (wf_frame t \<longrightarrow> wf_frame t')"
  by (auto simp: drop_time_parts_def nrows_dropcols wf_dropcols)

lemma rows_convert_position:
  "convert_position L c t = Inr t' \<Longrightarrow> nrows t' = nrows t \<and> (wf_frame t \<longrightarrow> wf_frame t')"
  by (auto simp: convert_position_def nrows_setcol wf_setcol wf_getcol split: option.splits)

lemma rows_fill_mode:
  "fill_mode c t = Inr t' \<Longrightarrow> nrows t' = nrows t \<and> (wf_frame t \<longrightarrow> wf_frame t')"
  by (auto simp: fill_mode_def fillna_def nrows_setcol wf_setcol wf_getcol
      split: option.splits if_splits list.splits)

lemma rows_impute_positions:
  assumes "impute_positions t = Inr t'"
  shows "nrows t' = nrows t \<and> (wf_frame t \<longrightarrow> wf_frame t')"
proof (cases "t' = t")
  case True
  then show ?thesis by simp
next
  case False
  with assms obtain las los xs ys ps where g: "getcol t ''Latitude'' = Some las"
      "getcol t ''Longitude'' = Some los"
    and xs: "collect (map float_of_cell las) = Inr xs"
    and ys: "collect (map float_of_cell los) = Inr ys"
    and ps: "knn_impute 5 (zip xs ys) = Inr ps"
    and t': "t' = setcol ''Longitude'' (map (\<lambda>p. Num (snd p)) ps)
                   (setcol ''Latitude'' (map (\<lambda>p. Num (fst p)) ps) t)"
    by (auto simp: impute_positions_def split: option.splits if_splits sum.splits)
  from ps have "length ps = length (zip xs ys)"
    by (auto simp: knn_impute_def split: if_splits)
  with collect_map_Inr(1)[OF xs] collect_map_Inr(1)[OF ys]
  have "length ps = min (length las) (length los)" by simp
  then have "wf_frame t \<Longrightarrow> length ps = nrows t"
    using g by (simp add: wf_getcol)
  then show ?thesis
    by (auto simp: t' nrows_setcol wf_setcol)
qed

lemma rows_add_distance:
  assumes "add_distance L t = Inr t'"
  shows "nrows t' = nrows t \<and> (wf_frame t \<longrightarrow> wf_frame t')"
proof -
  from assms obtain f ds where c: "collect (map f [0..<nrows t]) = Inr ds"
    and t': "t' = setcol ''distance_to_colony_km'' ds t"
    by (auto simp: add_distance_def split: option.splits sum.splits)
  from collect_map_Inr(1)[OF c] have "length ds = nrows t" by simp
  then show ?thesis
    by (simp add: t' nrows_setcol wf_setcol)
qed

lemma rows_add_time_features:
  "add_time_features t = Inr t' \<Longrightarrow> nrows t' = nrows t \<and> (wf_frame t \<longrightarrow> wf_frame t')"
  by (auto simp: add_time_features_def nrows_setcol wf_setcol wf_getcol
      split: option.splits if_splits)

lemma dummies_lengths: "list_all (\<lambda>(n, col). length col = length xs) (dummies L pre xs)"
  by (simp add: dummies_def list_all_iff)

lemma rows_get_dummies:
  assumes "get_dummies L cs t = Inr t'"
  shows "nrows t' = nrows t \<and> (wf_frame t \<longrightarrow> wf_frame t')"
proof -
  let ?f = "\<lambda>c. case getcol t c of None \<Rightarrow> [] | Some xs \<Rightarrow> dummies L c xs"
  from assms have t': "t' = t\<lparr>columns := filter (\<lambda>(n, xs). n \<notin> set cs) (columns t) @ concat (map ?f cs)\<rparr>"
    by (auto simp: get_dummies_def split: if_splits)
  have "wf_frame t \<Longrightarrow> list_all (\<lambda>(n, col). length col = nrows t) (?f c)" for c
  proof (cases "getcol t c")
    case None
    then show ?thesis by simp
  next
    case (Some xs)
    assume "wf_frame t"
    then have "length xs = nrows t" using Some by (rule wf_getcol)
    then show ?thesis
      using dummies_lengths[of xs L c] Some by simp
  qed
  then have "wf_frame t \<Longrightarrow> list_all (\<lambda>(n, col). length col = nrows t) (concat (map ?f cs))"
    by (auto simp: list_all_iff)
  then show ?thesis
    by (auto simp: t' wf_frame_def list_all_iff)
qed

lemma rows_scale_column:
  assumes "scale_column c t = Inr t'"
  shows "nrows t' = nrows t \<and> (wf_frame t \<longrightarrow> wf_frame t')"
proof (cases "getcol t c")
  case None
  with assms show ?thesis by (simp add: scale_column_def)
next
  case (Some xs)
  with assms obtain vs where vs: "collect (map filled_number xs) = Inr vs"
    and t': "t' = setcol c (map Num (standard_scale vs)) t"
    by (auto simp: scale_column_def split: sum.splits if_splits)
  from collect_map_Inr(1)[OF vs] have "length (map Num (standard_scale vs)) = length xs"
    by (simp add: standard_scale_def Let_def)
  then show ?thesis
    using Some by (auto simp: t' nrows_setcol wf_setcol wf_getcol)
qed

lemma rows_process_stmt:
  assumes "st \<in> set (process_stmts L)" and "effect st t = Inr t'"
  shows "nrows t' = nrows t \<and> (wf_frame t \<longrightarrow> wf_frame t')"
proof -
  from assms(1) have "st \<in> set (timestamp_stmts L)
      \<or> (\<exists>c. st = Assign (convert_position L c))
      \<or> (\<exists>c. st = Assign (fill_mode c))
      \<or> st \<in> {Assign impute_positions, Assign (add_distance L), Assign add_time_features,
               Rebind (get_dummies L categorical_cols)}
      \<or> (\<exists>c. st = Assign (scale_column c))"
    unfolding process_stmts_def by auto
  then consider (ts) "st \<in> set (timestamp_stmts L)"
    | (cp) c where "st = Assign (convert_position L c)"
    | (fm) c where "st = Assign (fill_mode c)"
    | (ip) "st = Assign impute_positions"
    | (ad) "st = Assign (add_distance L)"
    | (tf) "st = Assign add_time_features"
    | (gd) "st = Rebind (get_dummies L categorical_cols)"
    | (sc) c where "st = Assign (scale_column c)"
    by blast
  then show ?thesis
  proof cases
    case ts
    then consider "st = Assign (convert_date L)"
      | "st = When (\<lambda>t. has_col t ''TimeGMT'') (Assign (split_time L))"
      | "st = When (\<lambda>t. has_col t ''TimeGMT'') (Assign combine_timestamp)"
      | "st = When (\<lambda>t. has_col t ''TimeGMT'') (Rebind drop_time_parts)"
      unfolding timestamp_stmts_def by auto
    then show ?thesis
    proof cases
      case 1
      with assms(2) show ?thesis by (simp add: rows_convert_date)
    next
      case 2
      with assms(2) show ?thesis
        by (cases "has_col t ''TimeGMT''") (simp_all add: rows_split_time)
    next
      case 3
      with assms(2) show ?thesis
        by (cases "has_col t ''TimeGMT''") (simp_all add: rows_combine_timestamp)
    next
      case 4
      with assms(2) show ?thesis
        by (cases "has_col t ''TimeGMT''") (simp_all add: rows_drop_time_parts)
    qed
  next
    case cp
    with assms(2) show ?thesis by (simp add: rows_convert_position)
  next
    case fm
    with assms(2) show ?thesis by (simp add: rows_fill_mode)
  next
    case ip
    with assms(2) show ?thesis by (simp add: rows_impute_positions)
  next
    case ad
    with assms(2) show ?thesis by (simp add: rows_add_distance)
  next
    case tf
    with assms(2) show ?thesis by (simp add: rows_add_time_features)
  next
    case gd
    with assms(2) show ?thesis by (simp add: rows_get_dummies)
  next
    case sc
    with assms(2) show ?thesis by (simp add: rows_scale_column)
  qed
qed

lemma rows_process_step:
  assumes "f \<in> set (process_steps L)" and "f t = Inr t'"
  shows "nrows t' = nrows t \<and> (wf_frame t \<longrightarrow> wf_frame t')"
proof -
  from assms(1) obtain st where "st \<in> set (process_stmts L)" "f = effect st"
    by (auto simp: process_steps_def)
  with assms(2) show ?thesis
    using rows_process_stmt by simp
qed

text \<open>
  Claim C9: every statement of \<open>process_data\<close> after the copy returns a table with
  the number of rows of its input, and so does every sequence of them, the whole
  pipeline included; on a well-formed table every column of the result has that many
  cells.
\<close>

theorem row_count_preserved:
  assumes "set fs \<subseteq> set (process_steps L)" and "run_steps fs t = Inr t'"
  shows "nrows t' = nrows t \<and> (wf_frame t \<longrightarrow> wf_frame t')"
  using assms
proof (induction fs arbitrary: t)
  case Nil
  then show ?case by simp
next
  case (Cons f fs)
  from Cons.prems(2) obtain t1 where t1: "f t = Inr t1" and rest: "run_steps fs t1 = Inr t'"
    by (simp add: and_then_Inr) blast
  have f: "f \<in> set (process_steps L)" and fs: "set fs \<subseteq> set (process_steps L)"
    using Cons.prems(1) by simp_all
  have "nrows t1 = nrows t \<and> (wf_frame t \<longrightarrow> wf_frame t1)"
    using f t1 by (rule rows_process_step)
  moreover have "nrows t' = nrows t1 \<and> (wf_frame t1 \<longrightarrow> wf_frame t')"
    using fs rest by (rule Cons.IH)
  ultimately show ?case by simp
qed

theorem row_count_preserved_witness:
  "set (process_steps plain_lib) \<subseteq> set (process_steps plain_lib)
   \<and> run_steps (process_steps plain_lib) tracks = Inr processed_tracks
   \<and> wf_frame tracks
   \<and> nrows processed_tracks = nrows tracks
   \<and> wf_frame processed_tracks"
proof -
  have h1: "set (process_steps plain_lib) \<subseteq> set (process_steps plain_lib)"
    by simp
  have h2: "run_steps (process_steps plain_lib) tracks = Inr processed_tracks"
    using process_tracks by (simp add: process_data_def)
  have w: "wf_frame tracks"
    by (simp add: wf_frame_def tracks_def)
  show ?thesis
    using row_count_preserved[OF h1 h2] h2 w by simp
qed


subsection \<open>The caller's table\<close>

lemma exec_frame:
  assumes "exec st s a = (s', r)" and "n \<le> a" and "a < length s"
  shows "take n s' = take n s \<and> length s \<le> length s'
       \<and> (case r of Inl e \<Rightarrow> effect st (s ! a) = Inl e
           | Inr a' \<Rightarrow> n \<le> a' \<and> a' < length s' \<and> effect st (s ! a) = Inr (s' ! a'))"
  using assms
proof (induction st arbitrary: s' r)
  case (Assign f)
  then show ?case
    by (cases "f (s ! a)") auto
next
  case (Rebind f)
  then show ?case
    by (cases "f (s ! a)") auto
next
  case (When g st)
  show ?case
  proof (cases "g (s ! a)")
    case True
    with When.prems have "exec st s a = (s', r)" by simp
    from When.IH[OF this When.prems(2,3)] True show ?thesis
      by (cases r) simp_all
  next
    case False
    with When.prems show ?thesis by auto
  qed
qed

lemma exec_all_frame:
  assumes "exec_all sts s a = (s', r)" and "n \<le> a" and "a < length s"
  shows "take n s' = take n s \<and> length s \<le> length s'
       \<and> (case r of Inl e \<Rightarrow> run_steps (map effect sts) (s ! a) = Inl e
           | Inr a' \<Rightarrow> n \<le> a' \<and> a' < length s'
               \<and> run_steps (map effect sts) (s ! a) = Inr (s' ! a'))"
  using assms
proof (induction sts arbitrary: s a)
  case Nil
  then show ?case by auto
next
  case (Cons st sts)
  obtain s1 r1 where e: "exec st s a = (s1, r1)" by (cases "exec st s a")
  note f = exec_frame[OF e Cons.prems(2,3)]
  show ?case
  proof (cases r1)
    case (Inl err)
    with e Cons.prems(1) have "s' = s1" "r = Inl err" by simp_all
    with f Inl show ?thesis by (simp add: and_then_def)
  next
    case (Inr a1)
    with e Cons.prems(1) have rest: "exec_all sts s1 a1 = (s', r)" by simp
    from f Inr have a1: "n \<le> a1" "a1 < length s1" and eff: "effect st (s ! a) = Inr (s1 ! a1)"
      and tk: "take n s1 = take n s" and len: "length s \<le> length s1"
      by simp_all
    from Cons.IH[OF rest a1] tk len eff show ?thesis
      by (auto simp: and_then_def split: sum.splits)
  qed
qed

text \<open>
  Claim C10: \<open>process_data\<close> leaves every table that existed before the call as it
  was, the one it is given included, whether it returns or raises; what it returns is a
  new object.
\<close>

theorem process_data_leaves_input:
  assumes "p < length s" and "process_data_store L s p = (s', r)"
  shows "take (length s) s' = s \<and> s' ! p = s ! p
       \<and> (case r of
             Inl e \<Rightarrow> process_data L (s ! p) = Inl e
           | Inr a \<Rightarrow> length s \<le> a \<and> a < length s' \<and> process_data L (s ! p) = Inr (s' ! a))"
proof -
  have e: "exec_all (process_stmts L) (s @ [s ! p]) (length s) = (s', r)"
    using assms(2) by (simp add: process_data_store_def)
  have "length s \<le> length s" "length s < length (s @ [s ! p])"
    by simp_all
  from exec_all_frame[OF e this]
  have tk: "take (length s) s' = s" and len: "length s < length s'"
    and res: "case r of
                Inl e \<Rightarrow> run_steps (map effect (process_stmts L)) ((s @ [s ! p]) ! length s) = Inl e
              | Inr a \<Rightarrow> length s \<le> a \<and> a < length s'
                  \<and> run_steps (map effect (process_stmts L)) ((s @ [s ! p]) ! length s) = Inr (s' ! a)"
    by simp_all
  have "s' ! p = take (length s) s' ! p"
    using assms(1) by simp
  then have "s' ! p = s ! p"
    by (simp only: tk)
  moreover have n: "(s @ [s ! p]) ! length s = s ! p"
    by simp
  ultimately show ?thesis
    using tk res[unfolded n] by (cases r) (simp_all add: process_data_def process_steps_def)
qed


theorem process_data_leaves_input_witness:
  "\<exists>s' a. (0::nat) < length [tracks]
     \<and> process_data_store plain_lib [tracks] 0 = (s', Inr a)
     \<and> take (length [tracks]) s' = [tracks]
     \<and> s' ! 0 = tracks
     \<and> 1 \<le> a \<and> s' ! a = processed_tracks"
proof -
  obtain s' r where h2: "process_data_store plain_lib [tracks] 0 = (s', r)"
    by (cases "process_data_store plain_lib [tracks] 0")
  have h1: "(0::nat) < length [tracks]" by simp
  note t = process_data_leaves_input[OF h1 h2]
  show ?thesis
  proof (cases r)
    case (Inl e)
    with t process_tracks show ?thesis by simp
  next
    case (Inr a)
    with t process_tracks h2 show ?thesis by auto
  qed
qed

subsection \<open>Composition of the timestamp\<close>

text \<open>
  Claim C2 says that the composition of the timestamp never raises. It raises when a time
  of day has an hour of 25 (\<open>pd.Timestamp\<close> raises \<open>ValueError\<close>), when the date column is
  absent (\<open>df['DateGMT']\<close> raises \<open>KeyError\<close>), when no time has three fields (the
  assignment to three names raises \<open>ValueError\<close>) and when a field is no number
  (\<open>astype(float)\<close> raises \<open>ValueError\<close>).
\<close>

theorem compose_timestamp_hour_counterexample:
  "compose_timestamp plain_lib
     \<lparr>nrows = 1, columns = [(''DateGMT'', [Str ''05/01/2020'']), (''TimeGMT'', [Str ''25:00:00''])]\<rparr>
       = Inl ValueError
   \<and> compose_timestamp plain_lib
     \<lparr>nrows = 1, columns = [(''TimeGMT'', [Str ''12:30:45''])]\<rparr> = Inl KeyError
   \<and> compose_timestamp plain_lib
     \<lparr>nrows = 1, columns = [(''DateGMT'', [Str ''05/01/2020'']), (''TimeGMT'', [Str ''12:30''])]\<rparr>
       = Inl ValueError
   \<and> compose_timestamp plain_lib
     \<lparr>nrows = 1, columns = [(''DateGMT'', [Str ''05/01/2020'']), (''TimeGMT'', [Str ''noon''])]\<rparr>
       = Inl ValueError"
  by (simp add: compose_timestamp_def timestamp_stmts_def date_defs frame_defs time_defs lib_defs)

text \<open>
  Without the date column it raises whatever the library does. A time column that holds
  no string raises, and so does a field that does not fit into 32 bits. A time that is
  out of range does no harm in a row whose date does not parse: the row function looks at
  the date first.
\<close>

lemma compose_timestamp_without_date:
  "getcol t ''DateGMT'' = None \<Longrightarrow> compose_timestamp L t = Inl KeyError"
  by (simp add: compose_timestamp_def timestamp_stmts_def convert_date_def and_then_def)

lemma compose_timestamp_examples:
  "compose_timestamp plain_lib
     \<lparr>nrows = 1, columns = [(''DateGMT'', [Str ''05/01/2020'']), (''TimeGMT'', [Null])]\<rparr>
       = Inl AttributeError_or_ValueError
   \<and> compose_timestamp plain_lib
     \<lparr>nrows = 1,
      columns = [(''DateGMT'', [Str ''05/01/2020'']), (''TimeGMT'', [Str ''2147483648:00:00''])]\<rparr>
       = Inl OverflowError
   \<and> compose_timestamp plain_lib
     \<lparr>nrows = 1, columns = [(''DateGMT'', [Str ''31/02/2020'']), (''TimeGMT'', [Str ''25:00:00''])]\<rparr>
       = Inr \<lparr>nrows = 1,
              columns = [(''DateGMT'', [Null]), (''TimeGMT'', [Str ''25:00:00'']),
                         (''Timestamp'', [Null])]\<rparr>"
  by (simp add: compose_timestamp_def timestamp_stmts_def date_defs frame_defs time_defs lib_defs)

lemma getcol_dropcols: "getcol (dropcols cs t) c = (if c \<in> set cs then None else getcol t c)"
proof -
  have "map_of (filter (\<lambda>(n, xs). n \<notin> set cs) cols) c
        = (if c \<in> set cs then None else map_of cols c)" for cols :: "(string \<times> cell list) list"
  proof (induction cols)
    case Nil
    show ?case by simp
  next
    case (Cons p cols)
    obtain n xs where p: "p = (n, xs)" by (cases p)
    show ?case using Cons by (cases "n = c") (simp_all add: p)
  qed
  then show ?thesis
    by (simp add: getcol_def dropcols_def)
qed

lemma to_datetime_cell_cases:
  "to_datetime_cell L c = Null \<or> (\<exists>y m d h mi se. to_datetime_cell L c = Stamp y m d h mi se)"
  by (cases c) (auto split: option.splits)

lemma split_width_has_str: "split_width xs \<noteq> 0 \<Longrightarrow> list_ex is_str xs"
proof (induction xs)
  case Nil
  then show ?case by (simp add: split_width_def)
next
  case (Cons c xs)
  then show ?case
    by (cases c) (auto simp: split_width_def max_def split: if_splits)
qed

lemma float_column_succeeds:
  assumes "list_all (\<lambda>c. \<exists>v. float_part L c k = Some v) xs"
  shows "\<exists>ys. float_column L xs k = Inr ys"
  unfolding float_column_def
  by (rule collect_succeeds) (use assms in \<open>auto simp: list_all_iff\<close>)

lemma float_column_nth:
  assumes "float_column L xs k = Inr ys" and "i < length xs"
  shows "float_part L (xs ! i) k = Some (ys ! i)"
proof -
  from collect_map_Inr(2)[OF assms(1)[unfolded float_column_def] assms(2)]
  show ?thesis by (auto split: option.splits)
qed

lemma make_timestamp_succeeds:
  assumes "d = Null \<or> (\<exists>y mo da a b c. d = Stamp y mo da a b c)"
    and "time_field h = Inr hh" "0 \<le> hh" "hh < 24"
    and "time_field m = Inr mm" "0 \<le> mm" "mm < 60"
    and "time_field s = Inr ss" "0 \<le> ss" "ss < 60"
  shows "\<exists>v. make_timestamp d h m s = Inr v \<and> (d = Null \<longrightarrow> v = Null)"
  using assms by (auto simp: make_timestamp_def c_int_def)

lemma make_timestamp_without_date: "make_timestamp Null h m s = Inr Null"
  by (simp add: make_timestamp_def)

lemma split_time_succeeds:
  assumes xs: "getcol t ''TimeGMT'' = Some xs" and w: "split_width xs = 3"
    and ok: "list_all (\<lambda>c. (\<exists>v. float_part L c 0 = Some v) \<and> (\<exists>v. float_part L c 1 = Some v)
                        \<and> (\<exists>v. float_part L c 2 = Some v)) xs"
  shows "\<exists>hs ms ss. float_column L xs 0 = Inr hs \<and> float_column L xs 1 = Inr ms
           \<and> float_column L xs 2 = Inr ss
           \<and> split_time L t = Inr (setcol ''second'' ss (setcol ''minute'' ms (setcol ''hour'' hs t)))"
proof -
  from ok obtain hs ms ss where c: "float_column L xs 0 = Inr hs" "float_column L xs 1 = Inr ms"
      "float_column L xs 2 = Inr ss"
    using float_column_succeeds[of L 0 xs] float_column_succeeds[of L 1 xs]
      float_column_succeeds[of L 2 xs]
    by (auto simp: list_all_iff)
  have u: "[0..<3] = [0, 1, 2::nat]"
    by (simp add: upt_rec)
  have s: "list_ex is_str xs"
    using w by (intro split_width_has_str) simp
  have "collect (map (float_column L xs) [0..<split_width xs]) = Inr [hs, ms, ss]"
    using c by (simp add: w u)
  then have "split_time L t = Inr (setcol ''second'' ss (setcol ''minute'' ms (setcol ''hour'' hs t)))"
    using xs s by (simp add: split_time_def)
  with c show ?thesis by blast
qed

lemma combine_timestamp_succeeds:
  assumes g: "getcol t ''DateGMT'' = Some ds" "getcol t ''hour'' = Some hs"
      "getcol t ''minute'' = Some ms" "getcol t ''second'' = Some ss"
    and ok: "\<And>i. i < nrows t \<Longrightarrow>
        ds ! i = Null
        \<or> ((\<exists>y mo da a b c. ds ! i = Stamp y mo da a b c)
           \<and> (\<exists>n. time_field (hs ! i) = Inr n \<and> 0 \<le> n \<and> n < 24)
           \<and> (\<exists>n. time_field (ms ! i) = Inr n \<and> 0 \<le> n \<and> n < 60)
           \<and> (\<exists>n. time_field (ss ! i) = Inr n \<and> 0 \<le> n \<and> n < 60))"
  shows "\<exists>ts. combine_timestamp t = Inr (setcol ''Timestamp'' ts t) \<and> length ts = nrows t
           \<and> (\<forall>i<nrows t. ds ! i = Null \<longrightarrow> ts ! i = Null)"
proof -
  let ?f = "\<lambda>i. make_timestamp (ds ! i) (hs ! i) (ms ! i) (ss ! i)"
  have each: "\<exists>v. ?f i = Inr v \<and> (ds ! i = Null \<longrightarrow> v = Null)" if "i < nrows t" for i
  proof (cases "ds ! i = Null")
    case True
    then show ?thesis by (simp add: make_timestamp_without_date)
  next
    case False
    with ok[OF that] obtain hh mm se where
      "ds ! i = Null \<or> (\<exists>y mo da a b c. ds ! i = Stamp y mo da a b c)"
      "time_field (hs ! i) = Inr hh" "0 \<le> hh" "hh < 24"
      "time_field (ms ! i) = Inr mm" "0 \<le> mm" "mm < 60"
      "time_field (ss ! i) = Inr se" "0 \<le> se" "se < 60"
      by blast
    then show ?thesis by (rule make_timestamp_succeeds)
  qed
  then have "\<exists>x. ?f i = Inr x" if "i < nrows t" for i
    using that by blast
  then have "list_all (\<lambda>r. \<exists>x. r = Inr x) (map ?f [0..<nrows t])"
    by (simp add: list_all_iff)
  then obtain ts where ts: "collect (map ?f [0..<nrows t]) = Inr ts"
    using collect_succeeds by blast
  have len: "length ts = nrows t"
    using collect_map_Inr(1)[OF ts] by simp
  have "ts ! i = Null" if "i < nrows t" "ds ! i = Null" for i
  proof -
    from collect_map_Inr(2)[OF ts, of i] that(1) have "?f i = Inr (ts ! i)" by simp
    with each[OF that(1)] that(2) show ?thesis by auto
  qed
  moreover have "combine_timestamp t = Inr (setcol ''Timestamp'' ts t)"
    using g ts by (simp add: combine_timestamp_def)
  ultimately show ?thesis
    using len by blast
qed

text \<open>
  Claim C2, amended: on a well-formed table that has the date column the composition of
  the timestamp returns, provided that the time column, when it exists, has three fields
  in its longest time, holds in every row only fields that \<open>float\<close> accepts, and holds in
  every row whose date parses only fields whose integer part is an hour from 0 to 23, a
  minute or a second from 0 to 59 (an absent field or a NaN counts as 0). The date column
  then holds the parsed dates, and a row whose date is missing or does not parse has a
  null timestamp. This holds for every library.
\<close>

theorem compose_timestamp_returns:
  assumes wf: "wf_frame t" and d: "getcol t ''DateGMT'' = Some ds"
    and tm: "case getcol t ''TimeGMT'' of
               None \<Rightarrow> True
             | Some xs \<Rightarrow> split_width xs = 3
                 \<and> list_all (\<lambda>c. (\<exists>v. float_part L c 0 = Some v) \<and> (\<exists>v. float_part L c 1 = Some v)
                        \<and> (\<exists>v. float_part L c 2 = Some v)) xs
                 \<and> list_all (\<lambda>(dc, c). to_datetime_cell L dc = Null
                     \<or> ((\<exists>v n. float_part L c 0 = Some v \<and> time_field v = Inr n \<and> 0 \<le> n \<and> n < 24)
                      \<and> (\<exists>v n. float_part L c 1 = Some v \<and> time_field v = Inr n \<and> 0 \<le> n \<and> n < 60)
                      \<and> (\<exists>v n. float_part L c 2 = Some v \<and> time_field v = Inr n \<and> 0 \<le> n \<and> n < 60)))
                     (zip ds xs)"
  shows "\<exists>t'. compose_timestamp L t = Inr t'
       \<and> getcol t' ''DateGMT'' = Some (map (to_datetime_cell L) ds)
       \<and> (case getcol t ''TimeGMT'' of
             None \<Rightarrow> getcol t' ''Timestamp'' = getcol t ''Timestamp''
           | Some xs \<Rightarrow> (\<exists>ts. getcol t' ''Timestamp'' = Some ts \<and> length ts = nrows t
                 \<and> (\<forall>i<nrows t. to_datetime_cell L (ds ! i) = Null \<longrightarrow> ts ! i = Null)))"
proof -
  let ?ds = "map (to_datetime_cell L) ds"
  let ?t1 = "setcol ''DateGMT'' ?ds t"
  have c1: "convert_date L t = Inr ?t1"
    using d by (simp add: convert_date_def)
  have lds: "length ds = nrows t"
    using wf d by (rule wf_getcol)
  show ?thesis
  proof (cases "getcol t ''TimeGMT''")
    case None
    then have "\<not> has_col ?t1 ''TimeGMT''"
      by (simp add: has_col_getcol getcol_setcol)
    then have "compose_timestamp L t = Inr ?t1"
      by (simp add: compose_timestamp_def timestamp_stmts_def c1 and_then_def)
    then show ?thesis
      using None by (simp add: getcol_setcol)
  next
    case (Some xs)
    with tm have w: "split_width xs = 3"
      and ok': "list_all (\<lambda>c. (\<exists>v. float_part L c 0 = Some v) \<and> (\<exists>v. float_part L c 1 = Some v)
                        \<and> (\<exists>v. float_part L c 2 = Some v)) xs"
      and ok: "list_all (\<lambda>(dc, c). to_datetime_cell L dc = Null
                     \<or> ((\<exists>v n. float_part L c 0 = Some v \<and> time_field v = Inr n \<and> 0 \<le> n \<and> n < 24)
                      \<and> (\<exists>v n. float_part L c 1 = Some v \<and> time_field v = Inr n \<and> 0 \<le> n \<and> n < 60)
                      \<and> (\<exists>v n. float_part L c 2 = Some v \<and> time_field v = Inr n \<and> 0 \<le> n \<and> n < 60)))
                     (zip ds xs)"
      by simp_all
    have lxs: "length xs = nrows t"
      using wf Some by (rule wf_getcol)
    have x1: "getcol ?t1 ''TimeGMT'' = Some xs"
      using Some by (simp add: getcol_setcol)
    from split_time_succeeds[OF x1 w ok'] obtain hs ms ss where
      fc: "float_column L xs 0 = Inr hs" "float_column L xs 1 = Inr ms" "float_column L xs 2 = Inr ss"
      and st: "split_time L ?t1 = Inr (setcol ''second'' ss (setcol ''minute'' ms (setcol ''hour'' hs ?t1)))"
      by blast
    let ?t2 = "setcol ''second'' ss (setcol ''minute'' ms (setcol ''hour'' hs ?t1))"
    have g2: "getcol ?t2 ''DateGMT'' = Some ?ds" "getcol ?t2 ''hour'' = Some hs"
      "getcol ?t2 ''minute'' = Some ms" "getcol ?t2 ''second'' = Some ss"
      "getcol ?t2 ''TimeGMT'' = Some xs"
      using Some by (simp_all add: getcol_setcol)
    have n2: "nrows ?t2 = nrows t"
      by (simp add: nrows_setcol)
    have rows: "?ds ! i = Null
        \<or> ((\<exists>y mo da a b c. ?ds ! i = Stamp y mo da a b c)
           \<and> (\<exists>n. time_field (hs ! i) = Inr n \<and> 0 \<le> n \<and> n < 24)
           \<and> (\<exists>n. time_field (ms ! i) = Inr n \<and> 0 \<le> n \<and> n < 60)
           \<and> (\<exists>n. time_field (ss ! i) = Inr n \<and> 0 \<le> n \<and> n < 60))" if "i < nrows ?t2" for i
    proof (cases "?ds ! i = Null")
      case True
      then show ?thesis by simp
    next
      case False
      from that have i: "i < length xs" "i < length ds"
        by (simp_all add: n2 lxs lds)
      then have "(ds ! i, xs ! i) \<in> set (zip ds xs)"
        by (simp add: in_set_zip) blast
      with ok have "to_datetime_cell L (ds ! i) = Null
          \<or> ((\<exists>v n. float_part L (xs ! i) 0 = Some v \<and> time_field v = Inr n \<and> 0 \<le> n \<and> n < 24)
           \<and> (\<exists>v n. float_part L (xs ! i) 1 = Some v \<and> time_field v = Inr n \<and> 0 \<le> n \<and> n < 60)
           \<and> (\<exists>v n. float_part L (xs ! i) 2 = Some v \<and> time_field v = Inr n \<and> 0 \<le> n \<and> n < 60))"
        by (auto simp: list_all_iff)
      with False i(2) have c:
          "(\<exists>v n. float_part L (xs ! i) 0 = Some v \<and> time_field v = Inr n \<and> 0 \<le> n \<and> n < 24)"
          "(\<exists>v n. float_part L (xs ! i) 1 = Some v \<and> time_field v = Inr n \<and> 0 \<le> n \<and> n < 60)"
          "(\<exists>v n. float_part L (xs ! i) 2 = Some v \<and> time_field v = Inr n \<and> 0 \<le> n \<and> n < 60)"
        by simp_all
      have "float_part L (xs ! i) 0 = Some (hs ! i)" "float_part L (xs ! i) 1 = Some (ms ! i)"
        "float_part L (xs ! i) 2 = Some (ss ! i)"
        using fc i(1) by (simp_all add: float_column_nth)
      with c have "(\<exists>n. time_field (hs ! i) = Inr n \<and> 0 \<le> n \<and> n < 24)"
          "(\<exists>n. time_field (ms ! i) = Inr n \<and> 0 \<le> n \<and> n < 60)"
          "(\<exists>n. time_field (ss ! i) = Inr n \<and> 0 \<le> n \<and> n < 60)"
        by simp_all
      moreover have "\<exists>y mo da a b c. ?ds ! i = Stamp y mo da a b c"
        using False i(2) to_datetime_cell_cases[of L "ds ! i"] by simp
      ultimately show ?thesis by blast
    qed
    from combine_timestamp_succeeds[OF g2(1-4) rows] obtain ts where
      ct: "combine_timestamp ?t2 = Inr (setcol ''Timestamp'' ts ?t2)"
      and lts: "length ts = nrows t"
      and nul: "\<forall>i<nrows t. ?ds ! i = Null \<longrightarrow> ts ! i = Null"
      by (auto simp: n2)
    let ?t3 = "setcol ''Timestamp'' ts ?t2"
    let ?t4 = "dropcols [''hour'', ''minute'', ''second''] ?t3"
    have h1: "has_col ?t1 ''TimeGMT''" "has_col ?t2 ''TimeGMT''" "has_col ?t3 ''TimeGMT''"
      using Some by (simp_all add: has_col_getcol getcol_setcol)
    have "compose_timestamp L t = Inr ?t4"
      by (simp add: compose_timestamp_def timestamp_stmts_def c1 and_then_def h1 st ct
          drop_time_parts_def)
    moreover have "getcol ?t4 ''DateGMT'' = Some ?ds" "getcol ?t4 ''Timestamp'' = Some ts"
      by (simp_all add: getcol_dropcols getcol_setcol)
    moreover have "\<forall>i<nrows t. to_datetime_cell L (ds ! i) = Null \<longrightarrow> ts ! i = Null"
      using nul lds by simp
    ultimately show ?thesis
      using Some lts by auto
  qed
qed

text \<open>
  Three fixes: the second has an impossible date and a time that is out of range, the
  third has no time. The hypotheses hold, the composition returns, and the second row has
  a null timestamp.
\<close>

theorem compose_timestamp_returns_witness:
  "\<exists>t' ts. wf_frame sightings
     \<and> getcol sightings ''DateGMT'' = Some [Str ''05/01/2020'', Str ''31/02/2020'', Str ''06/07/2020'']
     \<and> getcol sightings ''TimeGMT'' = Some [Str ''12:30:45'', Str ''25:61'', Null]
     \<and> split_width [Str ''12:30:45'', Str ''25:61'', Null] = 3
     \<and> float_part plain_lib (Str ''25:61'') 0 = Some (Num 25)
     \<and> float_part plain_lib (Str ''25:61'') 2 = Some Null
     \<and> time_field Null = Inr 0
     \<and> to_datetime_cell plain_lib (Str ''31/02/2020'') = Null
     \<and> compose_timestamp plain_lib sightings = Inr t'
     \<and> getcol t' ''Timestamp'' = Some ts \<and> length ts = 3 \<and> ts ! 1 = Null"
proof -
  have h1: "wf_frame sightings"
    by (simp add: wf_frame_def sightings_def)
  have h2: "getcol sightings ''DateGMT'' = Some [Str ''05/01/2020'', Str ''31/02/2020'', Str ''06/07/2020'']"
    by (simp add: sightings_def getcol_def)
  have x: "getcol sightings ''TimeGMT'' = Some [Str ''12:30:45'', Str ''25:61'', Null]"
    by (simp add: sightings_def getcol_def)
  have w: "split_width [Str ''12:30:45'', Str ''25:61'', Null] = 3"
    by (simp add: split_width_def)
  have d: "to_datetime_cell plain_lib (Str ''31/02/2020'') = Null"
    by (simp add: date_defs lib_defs)
  have h3: "case getcol sightings ''TimeGMT'' of
               None \<Rightarrow> True
             | Some xs \<Rightarrow> split_width xs = 3
                 \<and> list_all (\<lambda>c. (\<exists>v. float_part plain_lib c 0 = Some v)
                        \<and> (\<exists>v. float_part plain_lib c 1 = Some v)
                        \<and> (\<exists>v. float_part plain_lib c 2 = Some v)) xs
                 \<and> list_all (\<lambda>(dc, c). to_datetime_cell plain_lib dc = Null
                     \<or> ((\<exists>v n. float_part plain_lib c 0 = Some v \<and> time_field v = Inr n \<and> 0 \<le> n \<and> n < 24)
                      \<and> (\<exists>v n. float_part plain_lib c 1 = Some v \<and> time_field v = Inr n \<and> 0 \<le> n \<and> n < 60)
                      \<and> (\<exists>v n. float_part plain_lib c 2 = Some v \<and> time_field v = Inr n \<and> 0 \<le> n \<and> n < 60)))
                     (zip [Str ''05/01/2020'', Str ''31/02/2020'', Str ''06/07/2020''] xs)"
    by (simp add: x w float_part_def date_defs lib_defs py_int_def)
  have f: "float_part plain_lib (Str ''25:61'') 0 = Some (Num 25)"
      "float_part plain_lib (Str ''25:61'') 2 = Some Null"
    by (simp_all add: float_part_def lib_defs)
  have n: "nrows sightings = 3"
    by (simp add: sightings_def)
  from compose_timestamp_returns[OF h1 h2 h3]
  obtain t' ts where "compose_timestamp plain_lib sightings = Inr t'"
    "getcol t' ''Timestamp'' = Some ts" "length ts = 3"
    "\<forall>i<3. to_datetime_cell plain_lib ([Str ''05/01/2020'', Str ''31/02/2020'', Str ''06/07/2020''] ! i) = Null
        \<longrightarrow> ts ! i = Null"
    by (auto simp: x n)
  moreover from this(4) d have "ts ! 1 = Null"
    by simp
  ultimately show ?thesis
    using h1 h2 x w d f by auto
qed

subsection \<open>Absent columns\<close>

text \<open>The statements of \<open>process_data\<close> grouped into its stages.\<close>

lemma run_steps_append: "run_steps (fs @ gs) t = and_then (run_steps fs t) (run_steps gs)"
proof (induction fs arbitrary: t)
  case Nil
  show ?case by (simp add: and_then_def)
next
  case (Cons f fs)
  show ?case
    by (cases "f t") (simp_all add: and_then_def Cons)
qed

lemma effect_Assign: "effect (Assign f) = f"
  by (rule ext) simp

lemma effect_Rebind: "effect (Rebind f) = f"
  by (rule ext) simp

lemma process_data_stages:
  "process_data L t =
     run_steps [compose_timestamp L, convert_positions L, impute_categorical, impute_positions,
                add_distance L, add_time_features, get_dummies L categorical_cols, normalize] t"
proof -
  have "process_steps L =
      map effect (timestamp_stmts L) @ map (convert_position L) position_cols
      @ map fill_mode categorical_cols
      @ [impute_positions, add_distance L, add_time_features, get_dummies L categorical_cols]
      @ map scale_column numeric_cols"
    by (simp add: process_steps_def process_stmts_def o_def effect_Assign effect_Rebind)
  then show ?thesis
    by (simp add: process_data_def run_steps_append compose_timestamp_def convert_positions_def
        impute_categorical_def normalize_def and_then_def split: sum.splits)
qed

text \<open>
  Which columns a table has changes only by the columns the pipeline adds and by the three
  it drops.
\<close>

lemma has_col_setcol: "has_col (setcol d v t) c \<longleftrightarrow> c = d \<or> has_col t c"
  by (simp add: has_col_getcol getcol_setcol)

lemma has_col_dropcols: "has_col (dropcols ds t) c \<longleftrightarrow> c \<notin> set ds \<and> has_col t c"
  by (simp add: has_col_getcol getcol_dropcols)

lemma has_col_setcol_present:
  "getcol t d = Some xs \<Longrightarrow> has_col (setcol d v t) c = has_col t c"
  by (simp add: has_col_getcol getcol_setcol)

lemma cols_convert_date: "convert_date L t = Inr t' \<Longrightarrow> has_col t' c = has_col t c"
  by (auto simp: convert_date_def has_col_setcol_present split: option.splits)

lemma cols_convert_position: "convert_position L d t = Inr t' \<Longrightarrow> has_col t' c = has_col t c"
  by (auto simp: convert_position_def has_col_setcol_present split: option.splits)

lemma cols_fill_mode: "fill_mode d t = Inr t' \<Longrightarrow> has_col t' c = has_col t c"
  by (auto simp: fill_mode_def has_col_setcol_present
      split: option.splits if_splits list.splits)

lemma cols_impute_positions:
  assumes "impute_positions t = Inr t'"
  shows "has_col t' c = has_col t c"
proof (cases "t' = t")
  case True
  then show ?thesis by simp
next
  case False
  with assms obtain las los ps where g: "getcol t ''Latitude'' = Some las"
    "getcol t ''Longitude'' = Some los"
    and t': "t' = setcol ''Longitude'' (map (\<lambda>p. Num (snd p)) ps)
            (setcol ''Latitude'' (map (\<lambda>p. Num (fst p)) ps) t)"
    by (auto simp: impute_positions_def split: option.splits if_splits sum.splits)
  from g have "has_col t ''Latitude''" "has_col t ''Longitude''"
    by (simp_all add: has_col_getcol)
  then show ?thesis
    by (auto simp: t' has_col_setcol)
qed

lemma cols_split_time:
  assumes "split_time L t = Inr t'" and "c \<notin> {''hour'', ''minute'', ''second''}"
  shows "has_col t' c = has_col t c"
proof -
  from assms(1) obtain hs ms ss where
    "t' = setcol ''second'' ss (setcol ''minute'' ms (setcol ''hour'' hs t))"
    by (auto simp: split_time_def split: option.splits if_splits sum.splits list.splits)
  with assms(2) show ?thesis
    by (simp add: has_col_setcol)
qed

lemma cols_combine_timestamp:
  assumes "combine_timestamp t = Inr t'" and "c \<noteq> ''Timestamp''"
  shows "has_col t' c = has_col t c"
proof -
  from assms(1) obtain ts where "t' = setcol ''Timestamp'' ts t"
    by (auto simp: combine_timestamp_def split: option.splits sum.splits)
  with assms(2) show ?thesis
    by (simp add: has_col_setcol)
qed

lemma cols_drop_time_parts:
  "drop_time_parts t = Inr t' \<Longrightarrow> c \<notin> {''hour'', ''minute'', ''second''} \<Longrightarrow> has_col t' c = has_col t c"
  by (auto simp: drop_time_parts_def has_col_dropcols)

lemma cols_compose_timestamp:
  assumes "compose_timestamp L t = Inr t'" and "c \<notin> {''hour'', ''minute'', ''second'', ''Timestamp''}"
  shows "has_col t' c = has_col t c"
proof -
  from assms(1) obtain t1 t2 t3 where s: "convert_date L t = Inr t1"
    "(if has_col t1 ''TimeGMT'' then split_time L t1 else Inr t1) = Inr t2"
    "(if has_col t2 ''TimeGMT'' then combine_timestamp t2 else Inr t2) = Inr t3"
    "(if has_col t3 ''TimeGMT'' then drop_time_parts t3 else Inr t3) = Inr t'"
    by (simp add: compose_timestamp_def timestamp_stmts_def and_then_Inr cong: if_cong) blast
  have "has_col t1 c = has_col t c"
    using s(1) by (rule cols_convert_date)
  moreover have "has_col t2 c = has_col t1 c"
    using s(2) assms(2) by (cases "has_col t1 ''TimeGMT''") (simp_all add: cols_split_time)
  moreover have "has_col t3 c = has_col t2 c"
    using s(3) assms(2) by (cases "has_col t2 ''TimeGMT''") (simp_all add: cols_combine_timestamp)
  moreover have "has_col t' c = has_col t3 c"
    using s(4) assms(2) by (cases "has_col t3 ''TimeGMT''") (simp_all add: cols_drop_time_parts)
  ultimately show ?thesis by simp
qed

lemma cols_run_steps:
  assumes "\<And>f t t'. f \<in> set fs \<Longrightarrow> f t = Inr t' \<Longrightarrow> has_col t' c = has_col t c"
    and "run_steps fs t = Inr t'"
  shows "has_col t' c = has_col t c"
  using assms
proof (induction fs arbitrary: t)
  case Nil
  then show ?case by simp
next
  case (Cons f fs)
  from Cons.prems(2) obtain t1 where t1: "f t = Inr t1" and rest: "run_steps fs t1 = Inr t'"
    by (simp add: and_then_Inr) blast
  have "has_col t1 c = has_col t c"
    using Cons.prems(1)[of f t t1] t1 by simp
  moreover have "has_col t' c = has_col t1 c"
  proof (rule Cons.IH[OF _ rest])
    fix g u u'
    assume "g \<in> set fs" "g u = Inr u'"
    then show "has_col u' c = has_col u c"
      using Cons.prems(1)[of g u u'] by simp
  qed
  ultimately show ?case by simp
qed

lemma cols_before_distance:
  assumes "run_steps [compose_timestamp L, convert_positions L, impute_categorical, impute_positions] t
           = Inr t'"
    and "c \<notin> {''hour'', ''minute'', ''second'', ''Timestamp''}"
  shows "has_col t' c = has_col t c"
proof -
  from assms(1) obtain t1 t2 t3 where s: "compose_timestamp L t = Inr t1"
    "convert_positions L t1 = Inr t2" "impute_categorical t2 = Inr t3" "impute_positions t3 = Inr t'"
    by (simp add: and_then_Inr) blast
  have "has_col t1 c = has_col t c"
    using s(1) assms(2) by (rule cols_compose_timestamp)
  moreover have "has_col t2 c = has_col t1 c"
  proof (rule cols_run_steps[OF _ s(2)[unfolded convert_positions_def]])
    fix f u u'
    assume "f \<in> set (map (convert_position L) position_cols)" "f u = Inr u'"
    then show "has_col u' c = has_col u c"
      by (auto simp: cols_convert_position)
  qed
  moreover have "has_col t3 c = has_col t2 c"
  proof (rule cols_run_steps[OF _ s(3)[unfolded impute_categorical_def]])
    fix f u u'
    assume "f \<in> set (map fill_mode categorical_cols)" "f u = Inr u'"
    then show "has_col u' c = has_col u c"
      by (auto simp: cols_fill_mode)
  qed
  moreover have "has_col t' c = has_col t3 c"
    using s(4) by (rule cols_impute_positions)
  ultimately show ?thesis by simp
qed

lemma cols_add_distance:
  assumes "add_distance L t = Inr t'" and "c \<noteq> ''distance_to_colony_km''"
  shows "has_col t' c = has_col t c"
proof -
  from assms(1) obtain ds where "t' = setcol ''distance_to_colony_km'' ds t"
    by (auto simp: add_distance_def split: option.splits sum.splits)
  with assms(2) show ?thesis
    by (simp add: has_col_setcol)
qed

lemma cols_add_time_features:
  assumes "add_time_features t = Inr t'" and "c \<notin> {''hour_of_day'', ''month'', ''season''}"
  shows "has_col t' c = has_col t c"
proof (cases "getcol t ''Timestamp''")
  case None
  with assms(1) show ?thesis by (simp add: add_time_features_def)
next
  case (Some ts)
  with assms(1) have "t' = setcol ''season'' (map (\<lambda>c. season_cell (month_cell c)) ts)
                     (setcol ''month'' (map month_cell ts)
                       (setcol ''hour_of_day'' (map hour_cell ts) t))"
    by (auto simp: add_time_features_def split: if_splits)
  with assms(2) show ?thesis
    by (simp add: has_col_setcol)
qed

lemma add_distance_absent:
  "\<not> has_col t c \<Longrightarrow> c \<in> set position_cols \<Longrightarrow> add_distance L t = Inl KeyError"
  by (auto simp: has_col_getcol position_cols_def add_distance_def split: option.splits)

lemma get_dummies_absent:
  "\<not> has_col t c \<Longrightarrow> c \<in> set cs \<Longrightarrow> get_dummies L cs t = Inl KeyError"
  by (auto simp: get_dummies_def list_all_iff)

text \<open>
  Without the time column the pipeline skips the time of day and the temporal features
  and completes.
\<close>

lemma absent_time_column_skipped:
  "\<exists>t'. process_data plain_lib (dropcols [''TimeGMT''] tracks) = Inr t'
     \<and> names t' =
           [''DateGMT'', ''Latitude'', ''Longitude'', ''distance_to_colony_km'',
            ''Sex_F'', ''Sex_nan'', ''Age_adult'', ''Age_nan'', ''Breed Stage_brood'',
            ''Breed Stage_chick'', ''Breed Stage_nan'', ''ArgosQuality_3'', ''ArgosQuality_A'',
            ''ArgosQuality_nan'']"
  by (simp add: pipeline_defs tracks_def date_defs frame_defs time_defs lib_defs step_defs
      mode_defs knn_defs)

text \<open>
  Claim C3 says that the pipeline skips the steps that depend on an absent column and
  completes, for the time column, a coordinate column and a categorical column alike.
  The code does so for the time column only: on every table that lacks one of the
  categorical columns \<open>process_data\<close> raises, at the latest in the one-hot encoding,
  and on every table with a row that lacks a coordinate column it raises, at the latest
  when the distance to the colony reads that column, although the statements before
  check that these columns exist.
\<close>

theorem absent_column_raises:
  assumes "\<not> has_col t c"
    and "c \<in> set categorical_cols \<or> (c \<in> set position_cols \<and> 0 < nrows t)"
  shows "\<exists>e. process_data L t = Inl e"
proof -
  let ?pre = "[compose_timestamp L, convert_positions L, impute_categorical, impute_positions]"
  let ?post = "[add_distance L, add_time_features, get_dummies L categorical_cols, normalize]"
  have pd: "process_data L t = and_then (run_steps ?pre t) (run_steps ?post)"
    using run_steps_append[of ?pre ?post t] by (simp add: process_data_stages)
  have c: "c \<notin> {''hour'', ''minute'', ''second'', ''Timestamp'', ''distance_to_colony_km'',
                ''hour_of_day'', ''month'', ''season''}"
    using assms(2) by (auto simp: categorical_cols_def position_cols_def)
  show ?thesis
  proof (cases "run_steps ?pre t")
    case (Inl e)
    then have "process_data L t = Inl e"
      by (simp only: pd and_then_def sum.case)
    then show ?thesis by blast
  next
    case (Inr t1)
    then have pd1: "process_data L t = run_steps ?post t1"
      by (simp only: pd and_then_def sum.case)
    have a1: "\<not> has_col t1 c"
      using cols_before_distance[OF Inr] c assms(1) by simp
    show ?thesis
    proof (cases "c \<in> set position_cols")
      case True
      then have "add_distance L t1 = Inl KeyError"
        using a1 by (intro add_distance_absent)
      then show ?thesis
        by (simp add: pd1 and_then_def)
    next
      case False
      with assms(2) have cat: "c \<in> set categorical_cols" by simp
      show ?thesis
      proof (cases "add_distance L t1")
        case (Inl e)
        then show ?thesis by (simp add: pd1 and_then_def)
      next
        case d: (Inr t2)
        have a2: "\<not> has_col t2 c"
          using cols_add_distance[OF d] c a1 by simp
        show ?thesis
        proof (cases "add_time_features t2")
          case (Inl e)
          then show ?thesis by (simp add: pd1 d and_then_def)
        next
          case f: (Inr t3)
          have "\<not> has_col t3 c"
            using cols_add_time_features[OF f] c a2 by simp
          then have "get_dummies L categorical_cols t3 = Inl KeyError"
            using cat by (intro get_dummies_absent)
          then show ?thesis
            by (simp add: pd1 d f and_then_def)
        qed
      qed
    qed
  qed
qed


theorem absent_column_raises_witness:
  "\<not> has_col (dropcols [''ArgosQuality''] tracks) ''ArgosQuality''
   \<and> ''ArgosQuality'' \<in> set categorical_cols
   \<and> process_data plain_lib (dropcols [''ArgosQuality''] tracks) = Inl KeyError
   \<and> \<not> has_col (dropcols [''Latitude''] tracks) ''Latitude''
   \<and> ''Latitude'' \<in> set position_cols \<and> 0 < nrows (dropcols [''Latitude''] tracks)
   \<and> process_data plain_lib (dropcols [''Latitude''] tracks) = Inl KeyError"
proof -
  have h1: "\<not> has_col (dropcols [''ArgosQuality''] tracks) ''ArgosQuality''"
    by (simp add: has_col_dropcols)
  have h2: "''ArgosQuality'' \<in> set categorical_cols \<or>
            (''ArgosQuality'' \<in> set position_cols \<and> 0 < nrows (dropcols [''ArgosQuality''] tracks))"
    by (simp add: categorical_cols_def)
  have h3: "\<not> has_col (dropcols [''Latitude''] tracks) ''Latitude''"
    by (simp add: has_col_dropcols)
  have h4: "''Latitude'' \<in> set categorical_cols \<or>
            (''Latitude'' \<in> set position_cols \<and> 0 < nrows (dropcols [''Latitude''] tracks))"
    by (simp add: position_cols_def dropcols_def tracks_def)
  have e1: "process_data plain_lib (dropcols [''ArgosQuality''] tracks) = Inl KeyError"
    by (simp add: pipeline_defs tracks_def date_defs frame_defs time_defs lib_defs step_defs
        mode_defs knn_defs)
  have e2: "process_data plain_lib (dropcols [''Latitude''] tracks) = Inl KeyError"
    by (simp add: pipeline_defs tracks_def date_defs frame_defs time_defs lib_defs step_defs
        mode_defs knn_defs)
  show ?thesis
    using absent_column_raises[OF h1 h2, of plain_lib] absent_column_raises[OF h3 h4, of plain_lib]
      h1 h3 h4 e1 e2
    by (simp add: categorical_cols_def)
qed

end
